theory Spec2Isabelle
  imports Complex_Main
begin

section \<open>Spreadsheet ingestion of server.js: cells, month and amount resolution, header search\<close>

text \<open>
  The development embeds the ingestion core of \<^verbatim>\<open>src/server.js\<close>: the helpers
  \<^verbatim>\<open>monthStringToIndex\<close>, \<^verbatim>\<open>parseAmount\<close>, \<^verbatim>\<open>findHeaderIndexes\<close> and the part of the
  upload handler that runs from the grid returned by \<^verbatim>\<open>sheet_to_json\<close> to the list
  \<^verbatim>\<open>normalized\<close> and its upserts.

  Modelling decisions.
  \<^item> A JavaScript number is a finite value, \<open>NaN\<close> or one of the two infinities. Finite
    values are reals: the rounding of doubles is not modelled, so \<^verbatim>\<open>parseFloat\<close> yields the
    exact decimal value of the text it reads (the values used below, such as 50.25 and
    1234.5, are doubles exactly).
  \<^item> A string is a list of code units below 256 (ASCII and Latin-1), which is what
    \<open>char\<close> offers; white space and lower-casing follow ECMAScript on that range.
  \<^item> \<^verbatim>\<open>null\<close> and \<^verbatim>\<open>undefined\<close> are one value, \<open>Absent\<close>: the three helpers treat
    them alike.
  \<^item> A \<^verbatim>\<open>Date\<close> object is observed through \<^verbatim>\<open>getMonth()\<close> and \<^verbatim>\<open>String(d)\<close> only, so a
    valid date carries these two observations.
  \<^item> Two built-ins of the JavaScript engine are not code of the repository and are
    parameters of the model: the month of \<^verbatim>\<open>new Date(s)\<close> for a string \<open>s\<close> (ECMAScript
    leaves the accepted formats to the implementation) and \<^verbatim>\<open>String(n)\<close> for a number.
\<close>

subsection \<open>Values\<close>

datatype jsnum = Finite real | NaN | PosInf | NegInf

datatype jsdate = ValidDate nat string | InvalidDate

datatype cell = Absent | Num jsnum | DateV jsdate | Text string

type_synonym row = "cell list"

type_synonym grid = "row list"

record runtime =
  dateMonth :: "string \<Rightarrow> nat option"
  numberToString :: "jsnum \<Rightarrow> string"

text \<open>\<^verbatim>\<open>val >= c\<close> and \<^verbatim>\<open>val <= c\<close> for a number \<open>val\<close>: every comparison with \<open>NaN\<close> is false.\<close>

fun num_ge :: "jsnum \<Rightarrow> real \<Rightarrow> bool" where
  "num_ge (Finite r) c = (c \<le> r)"
| "num_ge NaN c = False"
| "num_ge PosInf c = True"
| "num_ge NegInf c = False"

fun num_le :: "jsnum \<Rightarrow> real \<Rightarrow> bool" where
  "num_le (Finite r) c = (r \<le> c)"
| "num_le NaN c = False"
| "num_le PosInf c = False"
| "num_le NegInf c = True"

text \<open>\<^verbatim>\<open>val - c\<close>.\<close>

fun num_minus :: "jsnum \<Rightarrow> real \<Rightarrow> jsnum" where
  "num_minus (Finite r) c = Finite (r - c)"
| "num_minus NaN c = NaN"
| "num_minus PosInf c = PosInf"
| "num_minus NegInf c = NegInf"

text \<open>\<^verbatim>\<open>val + c\<close>.\<close>

fun num_plus :: "jsnum \<Rightarrow> real \<Rightarrow> jsnum" where
  "num_plus (Finite r) c = Finite (r + c)"
| "num_plus NaN c = NaN"
| "num_plus PosInf c = PosInf"
| "num_plus NegInf c = NegInf"

subsection \<open>Strings\<close>

text \<open>ECMAScript white space and line terminators below 256: TAB, LF, VT, FF, CR, SP, NBSP.\<close>

definition isSpace :: "char \<Rightarrow> bool" where
  "isSpace c = ((of_char c :: nat) \<in> {9, 10, 11, 12, 13, 32, 160})"

text \<open>\<^verbatim>\<open>\d\<close>: the ten ASCII digits.\<close>

definition isDigit :: "char \<Rightarrow> bool" where
  "isDigit c = (48 \<le> (of_char c :: nat) \<and> (of_char c :: nat) \<le> 57)"

definition digitVal :: "char \<Rightarrow> nat" where
  "digitVal c = (of_char c :: nat) - 48"

text \<open>\<^verbatim>\<open>String.prototype.trim\<close>.\<close>

definition trim :: "string \<Rightarrow> string" where
  "trim s = rev (dropWhile isSpace (rev (dropWhile isSpace s)))"

text \<open>\<^verbatim>\<open>String.prototype.toLowerCase\<close> below 256: A-Z and the Latin-1 capitals move up by 32.\<close>

definition toLowerChar :: "char \<Rightarrow> char" where
  "toLowerChar c =
     (let n = (of_char c :: nat)
      in if (65 \<le> n \<and> n \<le> 90) \<or> (192 \<le> n \<and> n \<le> 222 \<and> n \<noteq> 215)
         then char_of (n + 32) else c)"

definition toLowerCase :: "string \<Rightarrow> string" where
  "toLowerCase s = map toLowerChar s"

text \<open>The value of a string of decimal digits, as \<^verbatim>\<open>parseInt(s, 10)\<close> reads it.\<close>

definition digitsVal :: "string \<Rightarrow> nat" where
  "digitsVal s = foldl (\<lambda>a c. 10 * a + digitVal c) 0 s"

text \<open>\<^verbatim>\<open>String(val)\<close> for a date, and for a cell that is not \<^verbatim>\<open>null\<close>.\<close>

fun dateToString :: "jsdate \<Rightarrow> string" where
  "dateToString (ValidDate m s) = s"
| "dateToString InvalidDate = ''Invalid Date''"

fun jsString :: "runtime \<Rightarrow> cell \<Rightarrow> string" where
  "jsString rt Absent = ''null''"
| "jsString rt (Num n) = numberToString rt n"
| "jsString rt (DateV d) = dateToString d"
| "jsString rt (Text s) = s"

subsection \<open>monthStringToIndex\<close>

definition MONTHS :: "string list" where
  "MONTHS = [''January'', ''February'', ''March'', ''April'', ''May'', ''June'',
             ''July'', ''August'', ''September'', ''October'', ''November'', ''December'']"

definition abbr :: "(string \<times> nat) list" where
  "abbr = [(''jan'', 0), (''feb'', 1), (''mar'', 2), (''apr'', 3), (''may'', 4), (''jun'', 5),
           (''jul'', 6), (''aug'', 7), (''sep'', 8), (''sept'', 8), (''oct'', 9), (''nov'', 10),
           (''dec'', 11)]"

text \<open>\<^verbatim>\<open>Array.prototype.indexOf\<close>: the first position of \<open>x\<close>, or -1.\<close>

fun indexOfFrom :: "'a list \<Rightarrow> 'a \<Rightarrow> int \<Rightarrow> int" where
  "indexOfFrom [] x i = -1"
| "indexOfFrom (y # ys) x i = (if y = x then i else indexOfFrom ys x (i + 1))"

definition indexOf :: "'a list \<Rightarrow> 'a \<Rightarrow> int" where
  "indexOf xs x = indexOfFrom xs x 0"

text \<open>\<^verbatim>\<open>/^\d{1,2}$/.test(s)\<close>.\<close>

definition isDigits12 :: "string \<Rightarrow> bool" where
  "isDigits12 s = ((length s = 1 \<or> length s = 2) \<and> list_all isDigit s)"

text \<open>
  Lines 84 to 97: the rules that follow a failed date parse, on the trimmed and lower-cased
  text \<open>s\<close>. Dots and commas are removed; one or two digits with a value from 1 to 12 give
  that month; otherwise the full names are tried, then the abbreviations.
\<close>

definition stripDotsCommas :: "string \<Rightarrow> string" where
  "stripDotsCommas s = filter (\<lambda>c. c \<noteq> CHR ''.'' \<and> c \<noteq> CHR '','') s"

definition monthFromCleaned :: "string \<Rightarrow> jsnum option" where
  "monthFromCleaned s =
     (let cleaned = stripDotsCommas s;
          full = map toLowerCase MONTHS
      in if isDigits12 cleaned \<and> 1 \<le> digitsVal cleaned \<and> digitsVal cleaned \<le> 12
         then Some (Finite (real (digitsVal cleaned) - 1))
         else if cleaned \<in> set full then Some (Finite (real_of_int (indexOf full cleaned)))
         else (case map_of abbr cleaned of
                 Some i \<Rightarrow> Some (Finite (real i))
               | None \<Rightarrow> None))"

text \<open>
  Lines 78 to 97: the string rules. The text parsed as a date comes first (lines 81 and 82),
  then the rules above.
\<close>

definition monthFromText :: "runtime \<Rightarrow> string \<Rightarrow> jsnum option" where
  "monthFromText rt s =
     (case dateMonth rt s of
        Some m \<Rightarrow> Some (Finite (real m))
      | None \<Rightarrow> monthFromCleaned s)"

text \<open>Lines 74 and 75: the two ranges tried on a numeric cell, 1 to 12 first.\<close>

definition numericMonth :: "jsnum \<Rightarrow> jsnum option" where
  "numericMonth n =
     (if num_ge n 1 \<and> num_le n 12 then Some (num_minus n 1)
      else if num_ge n 0 \<and> num_le n 11 then Some n
      else None)"

text \<open>
  The whole function. \<open>None\<close> is \<^verbatim>\<open>null\<close>; the result is a JavaScript number, since
  \<^verbatim>\<open>val - 1\<close> and \<^verbatim>\<open>val\<close> are returned for a numeric cell as they are. A number outside
  both ranges, an invalid date and a text go on to the string rules.
\<close>

fun monthStringToIndex :: "runtime \<Rightarrow> cell \<Rightarrow> jsnum option" where
  "monthStringToIndex rt Absent = None"
| "monthStringToIndex rt (DateV (ValidDate m str)) = Some (Finite (real m))"
| "monthStringToIndex rt (Num n) =
     (case numericMonth n of
        Some i \<Rightarrow> Some i
      | None \<Rightarrow> monthFromText rt (toLowerCase (trim (jsString rt (Num n)))))"
| "monthStringToIndex rt val = monthFromText rt (toLowerCase (trim (jsString rt val)))"

subsection \<open>parseAmount\<close>

text \<open>\<^verbatim>\<open>replace(/[^0-9.\-]/g, '')\<close>: digits, dots and minus signs stay, wherever they are.\<close>

definition stripAmount :: "string \<Rightarrow> string" where
  "stripAmount s = filter (\<lambda>c. isDigit c \<or> c = CHR ''.'' \<or> c = CHR ''-'') s"

text \<open>
  \<^verbatim>\<open>parseFloat\<close> on a string of digits, dots and minus signs: it reads the longest prefix
  that is a decimal literal (an optional minus, digits, an optional dot and digits, with a
  digit on one side of the dot at least) and ignores the rest; with no such prefix the
  result is \<open>NaN\<close>.
\<close>

definition parseFloat :: "string \<Rightarrow> jsnum" where
  "parseFloat s =
     (let neg = (s \<noteq> [] \<and> hd s = CHR ''-'');
          r = (if neg then tl s else s);
          ip = takeWhile isDigit r;
          r2 = dropWhile isDigit r;
          fp = (if r2 \<noteq> [] \<and> hd r2 = CHR ''.'' then takeWhile isDigit (tl r2) else []);
          v = real (digitsVal ip) + real (digitsVal fp) / 10 ^ length fp
      in if ip = [] \<and> fp = [] then NaN else Finite (if neg then - v else v))"

fun isNaN :: "jsnum \<Rightarrow> bool" where
  "isNaN NaN = True"
| "isNaN n = False"

text \<open>Lines 105 to 109, on the text of the cell.\<close>

definition amountFromString :: "string \<Rightarrow> jsnum option" where
  "amountFromString str =
     (let s = stripAmount (trim str)
      in if s = [] \<or> s = ''-'' \<or> s = ''.'' \<or> s = ''-.'' then None
         else (let num = parseFloat s in if isNaN num then None else Some num))"

fun parseAmount :: "runtime \<Rightarrow> cell \<Rightarrow> jsnum option" where
  "parseAmount rt Absent = None"
| "parseAmount rt (Num n) = Some n"
| "parseAmount rt val = amountFromString (jsString rt val)"

subsection \<open>findHeaderIndexes\<close>

text \<open>\<^verbatim>\<open>.trim().toLowerCase().replace(/\s+/g, '')\<close>.\<close>

definition normString :: "string \<Rightarrow> string" where
  "normString s = filter (\<lambda>ch. \<not> isSpace ch) (toLowerCase (trim s))"

text \<open>\<^verbatim>\<open>String(c ?? '')\<close>, normalized.\<close>

definition normCell :: "runtime \<Rightarrow> cell \<Rightarrow> string" where
  "normCell rt c = normString (case c of Absent \<Rightarrow> [] | _ \<Rightarrow> jsString rt c)"

definition isMonthLabel :: "string \<Rightarrow> bool" where
  "isMonthLabel x = (x \<in> set [''month'', ''months''])"

definition isAmountLabel :: "string \<Rightarrow> bool" where
  "isAmountLabel x = (x \<in> set [''amount'', ''value'', ''amt''])"

text \<open>\<^verbatim>\<open>Array.prototype.findIndex\<close>: the first position whose element satisfies \<open>p\<close>, or -1.\<close>

fun findIndexFrom :: "('a \<Rightarrow> bool) \<Rightarrow> 'a list \<Rightarrow> int \<Rightarrow> int" where
  "findIndexFrom p [] i = -1"
| "findIndexFrom p (x # xs) i = (if p x then i else findIndexFrom p xs (i + 1))"

definition findIndex :: "('a \<Rightarrow> bool) \<Rightarrow> 'a list \<Rightarrow> int" where
  "findIndex p xs = findIndexFrom p xs 0"

record headerInfo =
  headerRow :: nat
  monthIdx :: int
  amountIdx :: int

text \<open>
  The loop of lines 117 to 128, at row number \<open>r\<close> with the rows from \<open>r\<close> on still to
  visit; it ends at the end of the grid or at \<open>r = 30\<close>.
\<close>

fun scanRows :: "runtime \<Rightarrow> nat \<Rightarrow> grid \<Rightarrow> headerInfo option" where
  "scanRows rt r [] = None"
| "scanRows rt r (row # rest) =
     (if r < 30 then
        (let norm = map (normCell rt) row;
             mIdx = findIndex isMonthLabel norm;
             aIdx = findIndex isAmountLabel norm
         in if mIdx \<noteq> -1 \<and> aIdx \<noteq> -1
            then Some \<lparr>headerRow = r, monthIdx = mIdx, amountIdx = aIdx\<rparr>
            else scanRows rt (Suc r) rest)
      else None)"

definition findHeaderIndexes :: "runtime \<Rightarrow> grid \<Rightarrow> headerInfo option" where
  "findHeaderIndexes rt rows = scanRows rt 0 rows"

subsection \<open>The upload handler, from the grid to the normalized list\<close>

record normalizedRecord =
  monthNum :: jsnum
  amount :: jsnum

datatype failure = EmptyWorksheet | HeaderNotFound | NoValidRows

text \<open>\<^verbatim>\<open>r[i]\<close>: outside the row the read gives \<^verbatim>\<open>undefined\<close>.\<close>

definition cellAt :: "row \<Rightarrow> int \<Rightarrow> cell" where
  "cellAt r i = (if 0 \<le> i \<and> i < int (length r) then r ! nat i else Absent)"

text \<open>
  The body of the loop of lines 198 to 210 for one row: the record it pushes, or \<open>None\<close>
  when it takes \<^verbatim>\<open>continue\<close>.
\<close>

definition rowRecord :: "runtime \<Rightarrow> int \<Rightarrow> int \<Rightarrow> row \<Rightarrow> normalizedRecord option" where
  "rowRecord rt mIdx aIdx r =
     (let mi = monthStringToIndex rt (cellAt r mIdx);
          amt = parseAmount rt (cellAt r aIdx)
      in if mi = None \<or> amt = None then None
         else Some \<lparr>monthNum = num_plus (the mi) 1, amount = the amt\<rparr>)"

text \<open>The loop; \<open>acc\<close> is the array \<^verbatim>\<open>normalized\<close> built so far.\<close>

fun normalizeRows :: "runtime \<Rightarrow> int \<Rightarrow> int \<Rightarrow> row list \<Rightarrow> normalizedRecord list
    \<Rightarrow> normalizedRecord list" where
  "normalizeRows rt mIdx aIdx [] acc = acc"
| "normalizeRows rt mIdx aIdx (r # rs) acc =
     (case rowRecord rt mIdx aIdx r of
        None \<Rightarrow> normalizeRows rt mIdx aIdx rs acc
      | Some rec \<Rightarrow> normalizeRows rt mIdx aIdx rs (acc @ [rec]))"

text \<open>Line 194: the rows after the header that are not empty. Every row of the grid is an
  array, so \<^verbatim>\<open>Array.isArray(r)\<close> holds by type.\<close>

definition dataRowsAfter :: "nat \<Rightarrow> grid \<Rightarrow> row list" where
  "dataRowsAfter hdr rows = filter (\<lambda>r. r \<noteq> []) (drop (hdr + 1) rows)"

text \<open>
  Lines 186 to 214: the empty-worksheet check, the header search, the data rows, the loop,
  and the check that something was kept. The result is either the failure the handler
  answers with or the list \<^verbatim>\<open>normalized\<close> it goes on to store.
\<close>

definition uploadIngest :: "runtime \<Rightarrow> grid \<Rightarrow> failure + normalizedRecord list" where
  "uploadIngest rt rows =
     (if rows = [] then Inl EmptyWorksheet
      else (case findHeaderIndexes rt rows of
              None \<Rightarrow> Inl HeaderNotFound
            | Some h \<Rightarrow>
                (let dataRows = dataRowsAfter (headerRow h) rows;
                     normalized = normalizeRows rt (monthIdx h) (amountIdx h) dataRows []
                 in if normalized = [] then Inl NoValidRows else Inr normalized)))"

text \<open>
  Lines 217 to 230: each record is written with
  \<^verbatim>\<open>INSERT ... ON DUPLICATE KEY UPDATE amount = VALUES(amount)\<close> under the key
  (user, year, month). For the one user and year of a request the table is a map from the
  month number to the amount; the queries are issued in the order of the list on the one
  connection.
\<close>

definition upsert :: "(jsnum \<rightharpoonup> jsnum) \<Rightarrow> normalizedRecord \<Rightarrow> (jsnum \<rightharpoonup> jsnum)" where
  "upsert db rec = db(monthNum rec \<mapsto> amount rec)"

definition upsertAll :: "(jsnum \<rightharpoonup> jsnum) \<Rightarrow> normalizedRecord list \<Rightarrow> (jsnum \<rightharpoonup> jsnum)" where
  "upsertAll db recs = foldl upsert db recs"

subsection \<open>A runtime for concrete evaluation\<close>

text \<open>
  The closed examples below need values for the two engine built-ins. The date parser of
  this instance accepts strings of one or two digits only, and reads them as Node does: 1
  to 12 is a month, 13 to 31 is no date, 0 and 32 to 99 are a year, which starts in
  January. It rejects every other string, month names and "0.0" among them. The number
  printer is exact on integers below \<open>10\<^sup>2\<^sup>1\<close>, which is all the examples would need.
\<close>

definition sampleDateMonth :: "string \<Rightarrow> nat option" where
  "sampleDateMonth s =
     (if isDigits12 s then
        (let n = digitsVal s
         in if 1 \<le> n \<and> n \<le> 12 then Some (n - 1)
            else if 13 \<le> n \<and> n \<le> 31 then None
            else Some 0)
      else None)"

fun showNat :: "nat \<Rightarrow> string" where
  "showNat n = (if n < 10 then [char_of (48 + n)] else showNat (n div 10) @ [char_of (48 + n mod 10)])"

fun sampleNumberToString :: "jsnum \<Rightarrow> string" where
  "sampleNumberToString (Finite r) = (if r < 0 then ''-'' else []) @ showNat (nat \<lfloor>\<bar>r\<bar>\<rfloor>)"
| "sampleNumberToString NaN = ''NaN''"
| "sampleNumberToString PosInf = ''Infinity''"
| "sampleNumberToString NegInf = ''-Infinity''"

definition sampleRuntime :: runtime where
  "sampleRuntime = \<lparr>dateMonth = sampleDateMonth, numberToString = sampleNumberToString\<rparr>"

subsection \<open>Predicates used to state the properties\<close>

text \<open>
  A row qualifies as a header when one of its cells normalizes to a month label and one to
  an amount label; \<open>firstMatch p xs i\<close> says that \<open>i\<close> is the position of the first element of
  \<open>xs\<close> that satisfies \<open>p\<close>.
\<close>

definition rowQualifies :: "runtime \<Rightarrow> row \<Rightarrow> bool" where
  "rowQualifies rt row =
     (list_ex (\<lambda>c. isMonthLabel (normCell rt c)) row \<and>
      list_ex (\<lambda>c. isAmountLabel (normCell rt c)) row)"

definition firstMatch :: "('a \<Rightarrow> bool) \<Rightarrow> 'a list \<Rightarrow> int \<Rightarrow> bool" where
  "firstMatch p xs i =
     (0 \<le> i \<and> nat i < length xs \<and> p (xs ! nat i) \<and> (\<forall>j < nat i. \<not> p (xs ! j)))"

text \<open>
  The amount filter as the specification words it: "every character except digits, a single
  leading minus sign, and decimal points". A minus sign stays only at the head of what is
  kept, and only once; the rest of the parsing is that of \<open>amountFromString\<close>.
\<close>

definition stripAmount_spec :: "string \<Rightarrow> string" where
  "stripAmount_spec s =
     (let kept = stripAmount s
      in if kept \<noteq> [] \<and> hd kept = CHR ''-''
         then CHR ''-'' # filter (\<lambda>c. c \<noteq> CHR ''-'') (tl kept)
         else filter (\<lambda>c. c \<noteq> CHR ''-'') kept)"

definition amountFromString_spec :: "string \<Rightarrow> jsnum option" where
  "amountFromString_spec str =
     (let s = stripAmount_spec (trim str)
      in if s = [] \<or> s = ''-'' \<or> s = ''.'' \<or> s = ''-.'' then None
         else (let num = parseFloat s in if isNaN num then None else Some num))"

text \<open>
  A record is well formed when its month number is one of the integers 1 to 12 and its
  amount is finite.
\<close>

definition wellFormedRecord :: "normalizedRecord \<Rightarrow> bool" where
  "wellFormedRecord rec =
     (monthNum rec \<in> set (map (\<lambda>k. Finite (real k)) [1..<13]) \<and>
      (case amount rec of Finite r \<Rightarrow> True | _ \<Rightarrow> False))"

text \<open>
  Grids for the closed examples: one with a title row, a row of near-labels, the header row
  and one data row; one with two rows for March; one whose only data row has no amount
  before a valid row; one with a header and a row of garbage; two with a numeric cell that
  is a fractional month or an amount that is not a number.
\<close>

definition sampleGrid :: grid where
  "sampleGrid =
     [[Text ''Annual report''], [Absent, Text ''Monthly'', Text ''Amount ($)''],
      [Text ''Note'', Text '' Month '', Absent, Text ''AMT''],
      [Absent, Text ''Jan'', Absent, Num (Finite 100)]]"

definition marchGrid :: grid where
  "marchGrid =
     [[Text ''Month'', Text ''Amount''],
      [Text ''March'', Num (Finite 100)],
      [Text ''March'', Num (Finite 150)]]"

definition gapGrid :: grid where
  "gapGrid =
     [[Text ''Month'', Text ''Amount''],
      [Text ''Jan'', Text ''N/A''],
      [Text ''Feb'', Num (Finite 20)]]"

definition garbageGrid :: grid where
  "garbageGrid = [[Text ''Month'', Text ''Amount''], [], [Text ''garbage'', Text ''N/A'']]"

definition fractionGrid :: grid where
  "fractionGrid = [[Text ''Month'', Text ''Amount''], [Num (Finite 1.5), Num (Finite 10)]]"

definition nanGrid :: grid where
  "nanGrid = [[Text ''Month'', Text ''Amount''], [Num (Finite 1), Num NaN]]"

section \<open>Properties\<close>

subsection \<open>The header search\<close>

lemma findIndexFrom_none:
  "0 \<le> i \<Longrightarrow> (findIndexFrom p xs i = -1) = (\<forall>x \<in> set xs. \<not> p x)"
proof (induction xs arbitrary: i)
  case Nil
  then show ?case by simp
next
  case (Cons x xs)
  from Cons.prems have "0 \<le> i + 1" by simp
  from Cons.IH [OF this] Cons.prems show ?case by auto
qed

lemma findIndexFrom_first:
  "(\<exists>x \<in> set xs. p x) \<Longrightarrow> firstMatch p xs (findIndexFrom p xs i - i)"
proof (induction xs arbitrary: i)
  case Nil
  then show ?case by simp
next
  case (Cons x xs)
  show ?case
  proof (cases "p x")
    case True
    then show ?thesis by (simp add: firstMatch_def)
  next
    case False
    with Cons.prems have ex: "\<exists>y \<in> set xs. p y" by simp
    from Cons.IH [OF ex, of "i + 1"]
    have fm: "firstMatch p xs (findIndexFrom p xs (i + 1) - (i + 1))" .
    define k where "k = findIndexFrom p xs (i + 1) - (i + 1)"
    from fm have k: "0 \<le> k" "nat k < length xs" "p (xs ! nat k)" "\<forall>j < nat k. \<not> p (xs ! j)"
      by (simp_all add: firstMatch_def k_def)
    have eq: "findIndexFrom p (x # xs) i - i = k + 1"
      using False by (simp add: k_def)
    have nk: "nat (k + 1) = Suc (nat k)" using k(1) by simp
    have "\<forall>j < Suc (nat k). \<not> p ((x # xs) ! j)"
    proof (intro allI impI)
      fix j assume "j < Suc (nat k)"
      then show "\<not> p ((x # xs) ! j)" using False k(4) by (cases j) auto
    qed
    then show ?thesis
      unfolding eq firstMatch_def nk using k by simp
  qed
qed

lemma findIndex_none: "(findIndex p xs = -1) = (\<forall>x \<in> set xs. \<not> p x)"
  by (simp add: findIndex_def findIndexFrom_none)

lemma findIndex_first:
  assumes "findIndex p xs \<noteq> -1"
  shows "firstMatch p xs (findIndex p xs)"
proof -
  from assms have "\<exists>x \<in> set xs. p x"
    using findIndex_none [of p xs] by blast
  from findIndexFrom_first [OF this, of 0] show ?thesis
    by (simp add: findIndex_def)
qed

lemma rowQualifies_findIndex:
  "rowQualifies rt row =
     (findIndex isMonthLabel (map (normCell rt) row) \<noteq> -1 \<and>
      findIndex isAmountLabel (map (normCell rt) row) \<noteq> -1)"
  by (auto simp: rowQualifies_def findIndex_none list_ex_iff)

lemma scanRows_None:
  "(scanRows rt r rows = None) =
     (\<forall>k < length rows. r + k < 30 \<longrightarrow> \<not> rowQualifies rt (rows ! k))"
proof (induction rows arbitrary: r)
  case Nil
  then show ?case by simp
next
  case (Cons row rest)
  show ?case
  proof (cases "r < 30")
    case False
    then show ?thesis by simp
  next
    case True
    show ?thesis
    proof (cases "rowQualifies rt row")
      case True
      with \<open>r < 30\<close> show ?thesis
        by (auto simp: rowQualifies_findIndex Let_def)
    next
      case False
      then have "scanRows rt r (row # rest) = scanRows rt (Suc r) rest"
        using \<open>r < 30\<close> by (auto simp: rowQualifies_findIndex Let_def)
      also have "(\<dots> = None) = (\<forall>k < length rest. Suc r + k < 30 \<longrightarrow> \<not> rowQualifies rt (rest ! k))"
        by (rule Cons.IH)
      also have "\<dots> = (\<forall>k < length (row # rest). r + k < 30 \<longrightarrow> \<not> rowQualifies rt ((row # rest) ! k))"
        using False by (auto simp: less_Suc_eq_0_disj)
      finally show ?thesis .
    qed
  qed
qed

lemma scanRows_Some:
  "scanRows rt r rows = Some h \<Longrightarrow>
     r \<le> headerRow h \<and> headerRow h < 30 \<and> headerRow h - r < length rows \<and>
     rowQualifies rt (rows ! (headerRow h - r)) \<and>
     monthIdx h = findIndex isMonthLabel (map (normCell rt) (rows ! (headerRow h - r))) \<and>
     amountIdx h = findIndex isAmountLabel (map (normCell rt) (rows ! (headerRow h - r))) \<and>
     (\<forall>k < headerRow h - r. \<not> rowQualifies rt (rows ! k))"
proof (induction rows arbitrary: r)
  case Nil
  then show ?case by simp
next
  case (Cons row rest)
  from Cons.prems have r30: "r < 30" by (auto split: if_splits)
  show ?case
  proof (cases "rowQualifies rt row")
    case True
    with r30 Cons.prems have "h = \<lparr>headerRow = r, monthIdx = findIndex isMonthLabel (map (normCell rt) row),
        amountIdx = findIndex isAmountLabel (map (normCell rt) row)\<rparr>"
      by (auto simp: rowQualifies_findIndex Let_def)
    with True r30 show ?thesis by simp
  next
    case False
    with r30 Cons.prems have "scanRows rt (Suc r) rest = Some h"
      by (auto simp: rowQualifies_findIndex Let_def)
    from Cons.IH [OF this] have ih:
      "Suc r \<le> headerRow h" "headerRow h < 30" "headerRow h - Suc r < length rest"
      "rowQualifies rt (rest ! (headerRow h - Suc r))"
      "monthIdx h = findIndex isMonthLabel (map (normCell rt) (rest ! (headerRow h - Suc r)))"
      "amountIdx h = findIndex isAmountLabel (map (normCell rt) (rest ! (headerRow h - Suc r)))"
      "\<forall>k < headerRow h - Suc r. \<not> rowQualifies rt (rest ! k)"
      by simp_all
    from ih(1) have d: "headerRow h - r = Suc (headerRow h - Suc r)" by simp
    have "\<forall>k < headerRow h - r. \<not> rowQualifies rt ((row # rest) ! k)"
    proof (intro allI impI)
      fix k assume "k < headerRow h - r"
      then show "\<not> rowQualifies rt ((row # rest) ! k)"
        using False ih(7) d by (cases k) auto
    qed
    with ih show ?thesis unfolding d by simp
  qed
qed

lemma firstMatch_map: "firstMatch p (map f xs) i = firstMatch (\<lambda>x. p (f x)) xs i"
  by (auto simp: firstMatch_def)

lemma scanRows_take: "scanRows rt r rows = scanRows rt r (take (30 - r) rows)"
proof (induction rows arbitrary: r)
  case Nil
  then show ?case by simp
next
  case (Cons row rest)
  show ?case
  proof (cases "r < 30")
    case False
    then show ?thesis by simp
  next
    case True
    then have "30 - r = Suc (30 - Suc r)" by simp
    then have t: "take (30 - r) (row # rest) = row # take (30 - Suc r) rest"
      by (simp only: take_Suc_Cons)
    show ?thesis
      unfolding t using True Cons.IH [of "Suc r"] by (simp add: Let_def)
  qed
qed

lemma findHeaderIndexes_None:
  "(findHeaderIndexes rt rows = None) =
     (\<forall>r < min 30 (length rows). \<not> rowQualifies rt (rows ! r))"
  by (auto simp: findHeaderIndexes_def scanRows_None)

lemma findHeaderIndexes_Some:
  assumes "findHeaderIndexes rt rows = Some h"
  shows "headerRow h < min 30 (length rows)"
    and "rowQualifies rt (rows ! headerRow h)"
    and "\<forall>r < headerRow h. \<not> rowQualifies rt (rows ! r)"
    and "firstMatch (\<lambda>c. isMonthLabel (normCell rt c)) (rows ! headerRow h) (monthIdx h)"
    and "firstMatch (\<lambda>c. isAmountLabel (normCell rt c)) (rows ! headerRow h) (amountIdx h)"
proof -
  from assms have s: "scanRows rt 0 rows = Some h" by (simp add: findHeaderIndexes_def)
  note f = scanRows_Some [OF s]
  from f show "headerRow h < min 30 (length rows)" by simp
  from f show q: "rowQualifies rt (rows ! headerRow h)" by simp
  from f show "\<forall>r < headerRow h. \<not> rowQualifies rt (rows ! r)" by simp
  from f have m: "monthIdx h = findIndex isMonthLabel (map (normCell rt) (rows ! headerRow h))"
    and a: "amountIdx h = findIndex isAmountLabel (map (normCell rt) (rows ! headerRow h))"
    by simp_all
  from q have "findIndex isMonthLabel (map (normCell rt) (rows ! headerRow h)) \<noteq> -1"
    and "findIndex isAmountLabel (map (normCell rt) (rows ! headerRow h)) \<noteq> -1"
    by (simp_all add: rowQualifies_findIndex)
  then show "firstMatch (\<lambda>c. isMonthLabel (normCell rt c)) (rows ! headerRow h) (monthIdx h)"
    and "firstMatch (\<lambda>c. isAmountLabel (normCell rt c)) (rows ! headerRow h) (amountIdx h)"
    unfolding m a by (simp_all add: findIndex_first flip: firstMatch_map)
qed

lemma uploadIngest_HeaderNotFound:
  "(uploadIngest rt rows = Inl HeaderNotFound) = (rows \<noteq> [] \<and> findHeaderIndexes rt rows = None)"
  by (auto simp: uploadIngest_def Let_def split: option.splits)

lemma labels_disjoint: "isMonthLabel x \<Longrightarrow> \<not> isAmountLabel x"
  by (auto simp: isMonthLabel_def isAmountLabel_def)

lemma sampleGrid_header:
  "findHeaderIndexes sampleRuntime sampleGrid = Some \<lparr>headerRow = 2, monthIdx = 1, amountIdx = 3\<rparr>"
  by code_simp

text \<open>
  Claim C5. The header search looks at the first 30 rows only. It finds nothing exactly when
  none of these rows holds both a cell that normalizes to a month label and a cell that
  normalizes to an amount label, and the handler then answers header-not-found (for a grid
  that is not empty). Otherwise it returns the lowest row that qualifies, with the column of
  the first month label and the column of the first amount label of that row.
\<close>

theorem findHeaderIndexes_first_qualifying_row:
  "findHeaderIndexes rt rows = findHeaderIndexes rt (take 30 rows) \<and>
   ((findHeaderIndexes rt rows = None) =
      (\<forall>r < min 30 (length rows). \<not> rowQualifies rt (rows ! r))) \<and>
   ((uploadIngest rt rows = Inl HeaderNotFound) =
      (rows \<noteq> [] \<and> (\<forall>r < min 30 (length rows). \<not> rowQualifies rt (rows ! r)))) \<and>
   (\<forall>h. findHeaderIndexes rt rows = Some h \<longrightarrow>
      headerRow h < min 30 (length rows) \<and>
      rowQualifies rt (rows ! headerRow h) \<and>
      (\<forall>r < headerRow h. \<not> rowQualifies rt (rows ! r)) \<and>
      firstMatch (\<lambda>c. isMonthLabel (normCell rt c)) (rows ! headerRow h) (monthIdx h) \<and>
      firstMatch (\<lambda>c. isAmountLabel (normCell rt c)) (rows ! headerRow h) (amountIdx h))"
proof (intro conjI allI impI)
  show "findHeaderIndexes rt rows = findHeaderIndexes rt (take 30 rows)"
    using scanRows_take [of rt 0 rows] by (simp add: findHeaderIndexes_def)
  show "(findHeaderIndexes rt rows = None) =
      (\<forall>r < min 30 (length rows). \<not> rowQualifies rt (rows ! r))"
    by (rule findHeaderIndexes_None)
  show "(uploadIngest rt rows = Inl HeaderNotFound) =
      (rows \<noteq> [] \<and> (\<forall>r < min 30 (length rows). \<not> rowQualifies rt (rows ! r)))"
    by (simp only: uploadIngest_HeaderNotFound findHeaderIndexes_None)
next
  fix h assume h: "findHeaderIndexes rt rows = Some h"
  note f = findHeaderIndexes_Some [OF h]
  show "headerRow h < min 30 (length rows)" by (rule f(1))
  show "rowQualifies rt (rows ! headerRow h)" by (rule f(2))
  show "firstMatch (\<lambda>c. isMonthLabel (normCell rt c)) (rows ! headerRow h) (monthIdx h)"
    by (rule f(4))
  show "firstMatch (\<lambda>c. isAmountLabel (normCell rt c)) (rows ! headerRow h) (amountIdx h)"
    by (rule f(5))
  fix r assume "r < headerRow h"
  with f(3) show "\<not> rowQualifies rt (rows ! r)" by simp
qed

theorem findHeaderIndexes_first_qualifying_row_witness:
  "findHeaderIndexes sampleRuntime sampleGrid = Some \<lparr>headerRow = 2, monthIdx = 1, amountIdx = 3\<rparr> \<and>
   rowQualifies sampleRuntime (sampleGrid ! 2) \<and>
   \<not> rowQualifies sampleRuntime (sampleGrid ! 0) \<and>
   \<not> rowQualifies sampleRuntime (sampleGrid ! 1) \<and>
   firstMatch (\<lambda>c. isMonthLabel (normCell sampleRuntime c)) (sampleGrid ! 2) 1 \<and>
   firstMatch (\<lambda>c. isAmountLabel (normCell sampleRuntime c)) (sampleGrid ! 2) 3 \<and>
   uploadIngest sampleRuntime sampleGrid \<noteq> Inl HeaderNotFound"
  using findHeaderIndexes_first_qualifying_row [of sampleRuntime sampleGrid] sampleGrid_header
  by auto

text \<open>
  Claim C10. In every header location the search returns, the month column and the amount
  column differ: no normalized cell is a month label and an amount label at once.
\<close>

theorem header_columns_differ:
  assumes "findHeaderIndexes rt rows = Some h"
  shows "monthIdx h \<noteq> amountIdx h"
proof
  assume eq: "monthIdx h = amountIdx h"
  from findHeaderIndexes_Some(4) [OF assms]
  have "isMonthLabel (normCell rt ((rows ! headerRow h) ! nat (monthIdx h)))"
    by (simp add: firstMatch_def)
  moreover from findHeaderIndexes_Some(5) [OF assms]
  have "isAmountLabel (normCell rt ((rows ! headerRow h) ! nat (amountIdx h)))"
    by (simp add: firstMatch_def)
  ultimately show False using eq labels_disjoint by simp
qed

theorem header_columns_differ_witness:
  "findHeaderIndexes sampleRuntime sampleGrid = Some \<lparr>headerRow = 2, monthIdx = 1, amountIdx = 3\<rparr> \<and>
   monthIdx \<lparr>headerRow = 2, monthIdx = 1, amountIdx = 3\<rparr> \<noteq>
   amountIdx \<lparr>headerRow = 2, monthIdx = 1, amountIdx = 3\<rparr>"
  using header_columns_differ [OF sampleGrid_header] sampleGrid_header by simp

subsection \<open>The loop over the data rows and the result of the handler\<close>

lemma normalizeRows_eq:
  "normalizeRows rt m a rs acc = acc @ List.map_filter (rowRecord rt m a) rs"
  by (induction rs arbitrary: acc) (auto simp: List.map_filter_simps split: option.splits)

lemma header_found_nonempty: "findHeaderIndexes rt rows = Some h \<Longrightarrow> rows \<noteq> []"
  by (auto simp: findHeaderIndexes_def)

lemma uploadIngest_found:
  assumes "findHeaderIndexes rt rows = Some h"
  shows "uploadIngest rt rows =
     (if List.map_filter (rowRecord rt (monthIdx h) (amountIdx h)) (dataRowsAfter (headerRow h) rows) = []
      then Inl NoValidRows
      else Inr (List.map_filter (rowRecord rt (monthIdx h) (amountIdx h))
                  (dataRowsAfter (headerRow h) rows)))"
  using assms header_found_nonempty [OF assms]
  by (simp add: uploadIngest_def normalizeRows_eq Let_def)

lemma uploadIngest_Inr:
  assumes "uploadIngest rt rows = Inr recs"
  shows "\<exists>h. findHeaderIndexes rt rows = Some h \<and> recs \<noteq> [] \<and>
     recs = List.map_filter (rowRecord rt (monthIdx h) (amountIdx h))
              (dataRowsAfter (headerRow h) rows)"
proof (cases "findHeaderIndexes rt rows")
  case None
  with assms show ?thesis by (simp add: uploadIngest_def split: if_splits)
next
  case (Some h)
  from assms uploadIngest_found [OF Some] show ?thesis
    using Some by (auto split: if_splits)
qed

lemma rowRecord_None:
  "(rowRecord rt m a r = None) =
     (monthStringToIndex rt (cellAt r m) = None \<or> parseAmount rt (cellAt r a) = None)"
  by (simp add: rowRecord_def Let_def)

lemma rowRecord_Some:
  "monthStringToIndex rt (cellAt r m) = Some i \<Longrightarrow> parseAmount rt (cellAt r a) = Some v \<Longrightarrow>
     rowRecord rt m a r = Some \<lparr>monthNum = num_plus i 1, amount = v\<rparr>"
  by (simp add: rowRecord_def Let_def)

lemma cellAt_Nil: "cellAt [] i = Absent"
  by (auto simp: cellAt_def)

lemma rowRecord_empty: "rowRecord rt m a [] = None"
  by (simp add: rowRecord_def cellAt_Nil)

lemma map_filter_empty_iff: "(List.map_filter f xs = []) = (\<forall>x \<in> set xs. f x = None)"
  by (induction xs) (auto simp: List.map_filter_simps split: option.splits)

lemma map_filter_mem: "x \<in> set xs \<Longrightarrow> f x = Some y \<Longrightarrow> y \<in> set (List.map_filter f xs)"
  by (induction xs) (auto simp: List.map_filter_simps split: option.splits)

lemma map_filter_dataRows:
  "List.map_filter (rowRecord rt m a) (dataRowsAfter hdr rows) =
   List.map_filter (rowRecord rt m a) (drop (hdr + 1) rows)"
proof -
  have "List.map_filter (rowRecord rt m a) (filter (\<lambda>r. r \<noteq> []) xs) =
        List.map_filter (rowRecord rt m a) xs" for xs
    by (induction xs) (auto simp: List.map_filter_simps rowRecord_empty split: option.splits)
  then show ?thesis by (simp add: dataRowsAfter_def)
qed

lemma scanRows_prefix:
  "scanRows rt r0 (pre @ x) = Some h \<Longrightarrow> headerRow h - r0 < length pre \<Longrightarrow>
     scanRows rt r0 (pre @ y) = Some h"
proof (induction pre arbitrary: r0)
  case Nil
  then show ?case by simp
next
  case (Cons row pre)
  from Cons.prems(1) have r30: "r0 < 30" by (auto split: if_splits)
  show ?case
  proof (cases "rowQualifies rt row")
    case True
    with r30 Cons.prems(1) show ?thesis
      by (auto simp: rowQualifies_findIndex Let_def)
  next
    case False
    with r30 Cons.prems(1) have s: "scanRows rt (Suc r0) (pre @ x) = Some h"
      by (auto simp: rowQualifies_findIndex Let_def)
    from scanRows_Some [OF s] have "Suc r0 \<le> headerRow h" by simp
    with Cons.prems(2) have "headerRow h - Suc r0 < length pre" by simp
    from Cons.IH [OF s this] False r30 show ?thesis
      by (auto simp: rowQualifies_findIndex Let_def)
  qed
qed

lemma garbageGrid_header:
  "findHeaderIndexes sampleRuntime garbageGrid = Some \<lparr>headerRow = 0, monthIdx = 0, amountIdx = 1\<rparr>"
  by code_simp

lemma garbageGrid_rows:
  "\<forall>r \<in> set (drop (0 + 1) garbageGrid).
      monthStringToIndex sampleRuntime (cellAt r 0) = None \<or>
      parseAmount sampleRuntime (cellAt r 1) = None"
  by code_simp

lemma gapGrid_header:
  "findHeaderIndexes sampleRuntime gapGrid = Some \<lparr>headerRow = 0, monthIdx = 0, amountIdx = 1\<rparr>"
  by code_simp

lemma gapGrid_bad_row: "parseAmount sampleRuntime (cellAt [Text ''Jan'', Text ''N/A''] 1) = None"
  by code_simp

lemma gapGrid_good_row:
  "monthStringToIndex sampleRuntime (cellAt [Text ''Feb'', Num (Finite 20)] 0) = Some (Finite 1) \<and>
   parseAmount sampleRuntime (cellAt [Text ''Feb'', Num (Finite 20)] 1) = Some (Finite 20)"
  by code_simp

lemma gapGrid_short:
  "uploadIngest sampleRuntime [[Text ''Month'', Text ''Amount''], [Text ''Feb'', Num (Finite 20)]] =
     Inr [\<lparr>monthNum = Finite 2, amount = Finite 20\<rparr>]"
  by code_simp

text \<open>
  Claim C6. A successful result is never empty. When the header is found and every row after
  it fails on the month or on the amount (in particular when no row follows the header), the
  handler answers with the no-valid-rows failure.
\<close>

theorem no_empty_success:
  "(\<forall>recs. uploadIngest rt rows = Inr recs \<longrightarrow> recs \<noteq> []) \<and>
   (\<forall>h. findHeaderIndexes rt rows = Some h \<and>
        (\<forall>r \<in> set (drop (headerRow h + 1) rows).
           monthStringToIndex rt (cellAt r (monthIdx h)) = None \<or>
           parseAmount rt (cellAt r (amountIdx h)) = None)
      \<longrightarrow> uploadIngest rt rows = Inl NoValidRows)"
proof (intro conjI allI impI)
  fix recs assume "uploadIngest rt rows = Inr recs"
  from uploadIngest_Inr [OF this] show "recs \<noteq> []" by blast
next
  fix h
  assume a: "findHeaderIndexes rt rows = Some h \<and>
        (\<forall>r \<in> set (drop (headerRow h + 1) rows).
           monthStringToIndex rt (cellAt r (monthIdx h)) = None \<or>
           parseAmount rt (cellAt r (amountIdx h)) = None)"
  then have "List.map_filter (rowRecord rt (monthIdx h) (amountIdx h))
               (dataRowsAfter (headerRow h) rows) = []"
    by (simp add: map_filter_dataRows map_filter_empty_iff rowRecord_None)
  with a uploadIngest_found [of rt rows h] show "uploadIngest rt rows = Inl NoValidRows"
    by simp
qed

theorem no_empty_success_witness:
  "findHeaderIndexes sampleRuntime garbageGrid = Some \<lparr>headerRow = 0, monthIdx = 0, amountIdx = 1\<rparr> \<and>
   uploadIngest sampleRuntime garbageGrid = Inl NoValidRows"
  using no_empty_success [of sampleRuntime garbageGrid] garbageGrid_header garbageGrid_rows
  by simp

text \<open>
  Claim C8. A row whose month or amount does not resolve is dropped and nothing else changes:
  the handler's answer is the one it gives for the grid without that row. A row after the
  header whose month and amount both resolve is in the result, whatever the other rows are,
  so such a run never ends in a failure.
\<close>

theorem invalid_rows_are_dropped_alone:
  "(\<forall>h. findHeaderIndexes rt (pre @ r # post) = Some h \<and> headerRow h < length pre \<and>
        (monthStringToIndex rt (cellAt r (monthIdx h)) = None \<or>
         parseAmount rt (cellAt r (amountIdx h)) = None)
      \<longrightarrow> uploadIngest rt (pre @ r # post) = uploadIngest rt (pre @ post)) \<and>
   (\<forall>h r' i v. findHeaderIndexes rt rows = Some h \<and>
        r' \<in> set (drop (headerRow h + 1) rows) \<and>
        monthStringToIndex rt (cellAt r' (monthIdx h)) = Some i \<and>
        parseAmount rt (cellAt r' (amountIdx h)) = Some v
      \<longrightarrow> (\<exists>recs. uploadIngest rt rows = Inr recs \<and>
                  \<lparr>monthNum = num_plus i 1, amount = v\<rparr> \<in> set recs))"
proof (intro conjI allI impI)
  fix h
  assume a: "findHeaderIndexes rt (pre @ r # post) = Some h \<and> headerRow h < length pre \<and>
        (monthStringToIndex rt (cellAt r (monthIdx h)) = None \<or>
         parseAmount rt (cellAt r (amountIdx h)) = None)"
  then have h1: "findHeaderIndexes rt (pre @ r # post) = Some h"
    and lt: "headerRow h < length pre"
    and bad: "rowRecord rt (monthIdx h) (amountIdx h) r = None"
    by (simp_all add: rowRecord_None)
  from h1 lt have h2: "findHeaderIndexes rt (pre @ post) = Some h"
    using scanRows_prefix [of rt 0 pre "r # post" h post] by (simp add: findHeaderIndexes_def)
  from lt have d1: "drop (headerRow h + 1) (pre @ r # post) = drop (headerRow h + 1) pre @ r # post"
    and d2: "drop (headerRow h + 1) (pre @ post) = drop (headerRow h + 1) pre @ post"
    by simp_all
  have "List.map_filter (rowRecord rt (monthIdx h) (amountIdx h)) (drop (headerRow h + 1) (pre @ r # post)) =
        List.map_filter (rowRecord rt (monthIdx h) (amountIdx h)) (drop (headerRow h + 1) (pre @ post))"
    unfolding d1 d2 using bad by (simp add: List.map_filter_def)
  then show "uploadIngest rt (pre @ r # post) = uploadIngest rt (pre @ post)"
    by (simp only: uploadIngest_found [OF h1] uploadIngest_found [OF h2] map_filter_dataRows)
next
  fix h r' i v
  assume a: "findHeaderIndexes rt rows = Some h \<and>
        r' \<in> set (drop (headerRow h + 1) rows) \<and>
        monthStringToIndex rt (cellAt r' (monthIdx h)) = Some i \<and>
        parseAmount rt (cellAt r' (amountIdx h)) = Some v"
  then have h: "findHeaderIndexes rt rows = Some h"
    and mem: "r' \<in> set (drop (headerRow h + 1) rows)"
    and ok: "rowRecord rt (monthIdx h) (amountIdx h) r' = Some \<lparr>monthNum = num_plus i 1, amount = v\<rparr>"
    by (simp_all add: rowRecord_Some)
  from map_filter_mem [where f = "rowRecord rt (monthIdx h) (amountIdx h)", OF mem ok]
  have "\<lparr>monthNum = num_plus i 1, amount = v\<rparr> \<in>
          set (List.map_filter (rowRecord rt (monthIdx h) (amountIdx h)) (dataRowsAfter (headerRow h) rows))"
    by (simp add: map_filter_dataRows)
  then show "\<exists>recs. uploadIngest rt rows = Inr recs \<and> \<lparr>monthNum = num_plus i 1, amount = v\<rparr> \<in> set recs"
    unfolding uploadIngest_found [OF h] by auto
qed

theorem invalid_rows_are_dropped_alone_witness:
  "uploadIngest sampleRuntime gapGrid = Inr [\<lparr>monthNum = Finite 2, amount = Finite 20\<rparr>]"
proof -
  have g: "gapGrid = [[Text ''Month'', Text ''Amount'']] @ [Text ''Jan'', Text ''N/A''] # [[Text ''Feb'', Num (Finite 20)]]"
    by (simp add: gapGrid_def)
  from invalid_rows_are_dropped_alone
         [of sampleRuntime "[[Text ''Month'', Text ''Amount'']]" "[Text ''Jan'', Text ''N/A'']"
             "[[Text ''Feb'', Num (Finite 20)]]" gapGrid]
       gapGrid_header gapGrid_bad_row
  have "uploadIngest sampleRuntime gapGrid =
        uploadIngest sampleRuntime ([[Text ''Month'', Text ''Amount'']] @ [[Text ''Feb'', Num (Finite 20)]])"
    unfolding g [symmetric] by simp
  then show ?thesis using gapGrid_short by simp
qed

subsection \<open>Duplicate months and the stored table\<close>

lemma upsertAll_snoc: "upsertAll db (recs @ [r]) = (upsertAll db recs)(monthNum r \<mapsto> amount r)"
  by (simp add: upsertAll_def upsert_def)

lemma upsertAll_last:
  "upsertAll db recs m =
     (if filter (\<lambda>r. monthNum r = m) recs = [] then db m
      else Some (amount (last (filter (\<lambda>r. monthNum r = m) recs))))"
proof (induction recs rule: rev_induct)
  case Nil
  then show ?case by (simp add: upsertAll_def)
next
  case (snoc r recs)
  then show ?case by (simp add: upsertAll_snoc)
qed

lemma marchGrid_result:
  "uploadIngest sampleRuntime marchGrid =
     Inr [\<lparr>monthNum = Finite 3, amount = Finite 100\<rparr>, \<lparr>monthNum = Finite 3, amount = Finite 150\<rparr>]"
  by code_simp

text \<open>
  Claim C1, as stated: the list handed over has at most one entry per month, and two rows
  for March with the amounts 100 and 150 give a single entry 150. The handler keeps both
  rows: the list has two entries for month 3.
\<close>

theorem march_rows_both_kept:
  "uploadIngest sampleRuntime marchGrid =
     Inr [\<lparr>monthNum = Finite 3, amount = Finite 100\<rparr>, \<lparr>monthNum = Finite 3, amount = Finite 150\<rparr>]"
  by code_simp

text \<open>
  Claim C1, amended. The list \<^verbatim>\<open>normalized\<close> holds one record for each data row whose month
  and amount resolve, in the order of the rows, so a month can occur more than once. A month
  becomes unique in the stored table only: after the upserts of the list, made in its
  order, the table holds for each month of the list the amount of the last row for that
  month, and is unchanged elsewhere.
\<close>

theorem upsert_last_row_wins:
  assumes "uploadIngest rt rows = Inr recs"
  shows "(\<exists>h. findHeaderIndexes rt rows = Some h \<and>
            recs = List.map_filter (rowRecord rt (monthIdx h) (amountIdx h))
                     (dataRowsAfter (headerRow h) rows)) \<and>
         (\<forall>m. upsertAll db recs m =
            (if filter (\<lambda>r. monthNum r = m) recs = [] then db m
             else Some (amount (last (filter (\<lambda>r. monthNum r = m) recs)))))"
proof (intro conjI allI)
  from uploadIngest_Inr [OF assms]
  show "\<exists>h. findHeaderIndexes rt rows = Some h \<and>
            recs = List.map_filter (rowRecord rt (monthIdx h) (amountIdx h))
                     (dataRowsAfter (headerRow h) rows)"
    by blast
next
  fix m
  show "upsertAll db recs m =
            (if filter (\<lambda>r. monthNum r = m) recs = [] then db m
             else Some (amount (last (filter (\<lambda>r. monthNum r = m) recs))))"
    by (rule upsertAll_last)
qed

theorem upsert_last_row_wins_witness:
  "uploadIngest sampleRuntime marchGrid =
     Inr [\<lparr>monthNum = Finite 3, amount = Finite 100\<rparr>, \<lparr>monthNum = Finite 3, amount = Finite 150\<rparr>] \<and>
   upsertAll Map.empty
     [\<lparr>monthNum = Finite 3, amount = Finite 100\<rparr>, \<lparr>monthNum = Finite 3, amount = Finite 150\<rparr>]
     (Finite 3) = Some (Finite 150) \<and>
   upsertAll Map.empty
     [\<lparr>monthNum = Finite 3, amount = Finite 100\<rparr>, \<lparr>monthNum = Finite 3, amount = Finite 150\<rparr>]
     (Finite 4) = None"
  using upsert_last_row_wins [OF marchGrid_result, of Map.empty] marchGrid_result
  by simp

subsection \<open>Well-formed records\<close>

text \<open>
  Claim C4 says that every record has an integer month number from 1 to 12 and a finite
  amount, numeric cells with a fraction, \<open>NaN\<close> or an infinity included. The code returns
  \<^verbatim>\<open>val - 1\<close> for every number between 1 and 12 and hands a numeric amount on as it is: the
  month cell 1.5 gives the month number 1.5, and the amount cell \<open>NaN\<close> gives the amount
  \<open>NaN\<close>.
\<close>

theorem fractional_month_and_nan_amount_pass:
  "uploadIngest sampleRuntime fractionGrid = Inr [\<lparr>monthNum = Finite 1.5, amount = Finite 10\<rparr>] \<and>
   \<not> wellFormedRecord \<lparr>monthNum = Finite 1.5, amount = Finite 10\<rparr> \<and>
   uploadIngest sampleRuntime nanGrid = Inr [\<lparr>monthNum = Finite 1, amount = NaN\<rparr>] \<and>
   \<not> wellFormedRecord \<lparr>monthNum = Finite 1, amount = NaN\<rparr>"
  by code_simp

subsection \<open>The end-to-end scenario and the exact match of labels\<close>

lemma normCell_Text: "normCell rt (Text s) = normString s"
  by (simp add: normCell_def)

lemma monthStringToIndex_Text:
  "monthStringToIndex rt (Text t) = monthFromText rt (toLowerCase (trim t))"
  by simp

lemma monthFromText_cases:
  "dateMonth rt s = None \<or> dateMonth rt s = Some m \<Longrightarrow> monthFromCleaned s = Some (Finite (real m)) \<Longrightarrow>
     monthFromText rt s = Some (Finite (real m))"
  by (auto simp: monthFromText_def)

lemma header_norms:
  "normString ''Month'' = ''month''" "normString ''Amount'' = ''amount''"
  by code_simp+

lemma header_indexes:
  "findIndex isMonthLabel [''month'', ''amount''] = 0"
  "findIndex isAmountLabel [''month'', ''amount''] = 1"
  by code_simp+

lemma scenario_texts:
  "toLowerCase (trim ''Jan'') = ''jan''"
  "toLowerCase (trim ''February'') = ''february''"
  "toLowerCase (trim ''3'') = ''3''"
  by code_simp+

lemma scenario_months:
  "monthFromCleaned ''jan'' = Some (Finite (real 0))"
  "monthFromCleaned ''february'' = Some (Finite (real 1))"
  "monthFromCleaned ''3'' = Some (Finite (real 2))"
  by code_simp+

lemma scenario_amounts:
  "amountFromString ''$50.25'' = Some (Finite 50.25)"
  "amountFromString ''N/A'' = None"
  by code_simp+

lemma scanRows_skip:
  "\<not> rowQualifies rt row \<Longrightarrow> r < 30 \<Longrightarrow> scanRows rt r (row # rest) = scanRows rt (Suc r) rest"
  by (auto simp: rowQualifies_findIndex Let_def)

lemma scanRows_hit:
  "rowQualifies rt row \<Longrightarrow> r < 30 \<Longrightarrow>
     scanRows rt r (row # rest) =
       Some \<lparr>headerRow = r, monthIdx = findIndex isMonthLabel (map (normCell rt) row),
             amountIdx = findIndex isAmountLabel (map (normCell rt) row)\<rparr>"
  by (auto simp: rowQualifies_findIndex Let_def)

lemma header_row_qualifies: "rowQualifies rt [Text ''Month'', Text ''Amount'']"
  by (simp add: rowQualifies_findIndex normCell_Text header_norms header_indexes)

lemma firstMatch_cellAt: "firstMatch p row i \<Longrightarrow> p (cellAt row i)"
  by (auto simp: firstMatch_def cellAt_def)

lemma sample_noise:
  "\<not> rowQualifies sampleRuntime [Text ''Annual report'']"
  "\<not> rowQualifies sampleRuntime [Absent, Text ''Monthly'', Text ''Amount ($)'']"
  by code_simp+

lemma sample_dates:
  "dateMonth sampleRuntime ''jan'' = None"
  "dateMonth sampleRuntime ''february'' = None"
  "dateMonth sampleRuntime ''3'' = Some 2"
  by code_simp+

lemma near_labels:
  "normString ''Monthly'' = ''monthly''" "normString ''Amount ($)'' = ''amount($)''"
  by code_simp+

lemma sampleGrid_labels:
  "normCell sampleRuntime (cellAt (sampleGrid ! 2) 1) = ''month''"
  "normCell sampleRuntime (cellAt (sampleGrid ! 2) 3) = ''amt''"
  by code_simp+

text \<open>
  Claim C3. The header row \<open>["Month", "Amount"]\<close> at index 2, below two rows that are no
  header, followed by \<open>["Jan", 100]\<close>, \<open>["February", "$50.25"]\<close>, \<open>["garbage", "N/A"]\<close> and
  \<open>["3", 75]\<close>: the handler succeeds with the records (1, 100), (2, 50.25), (3, 75), and
  their upserts give the table 1: 100, 2: 50.25, 3: 75. The date parser of the engine may
  reject the texts "jan", "february" and "3" or read them as dates of that month.
\<close>

theorem end_to_end_scenario:
  assumes n1: "\<not> rowQualifies rt n1" and n2: "\<not> rowQualifies rt n2"
    and jan: "dateMonth rt ''jan'' = None \<or> dateMonth rt ''jan'' = Some 0"
    and feb: "dateMonth rt ''february'' = None \<or> dateMonth rt ''february'' = Some 1"
    and three: "dateMonth rt ''3'' = None \<or> dateMonth rt ''3'' = Some 2"
  shows "uploadIngest rt
           [n1, n2, [Text ''Month'', Text ''Amount''],
            [Text ''Jan'', Num (Finite 100)], [Text ''February'', Text ''$50.25''],
            [Text ''garbage'', Text ''N/A''], [Text ''3'', Num (Finite 75)]] =
         Inr [\<lparr>monthNum = Finite 1, amount = Finite 100\<rparr>,
              \<lparr>monthNum = Finite 2, amount = Finite 50.25\<rparr>,
              \<lparr>monthNum = Finite 3, amount = Finite 75\<rparr>] \<and>
         upsertAll Map.empty
           [\<lparr>monthNum = Finite 1, amount = Finite 100\<rparr>,
            \<lparr>monthNum = Finite 2, amount = Finite 50.25\<rparr>,
            \<lparr>monthNum = Finite 3, amount = Finite 75\<rparr>] =
         [Finite 1 \<mapsto> Finite 100, Finite 2 \<mapsto> Finite 50.25, Finite 3 \<mapsto> Finite 75]"
proof
  let ?rows = "[n1, n2, [Text ''Month'', Text ''Amount''],
            [Text ''Jan'', Num (Finite 100)], [Text ''February'', Text ''$50.25''],
            [Text ''garbage'', Text ''N/A''], [Text ''3'', Num (Finite 75)]]"
  let ?h = "\<lparr>headerRow = 2, monthIdx = 0, amountIdx = 1\<rparr>"
  have "scanRows rt (Suc (Suc 0)) (drop 2 ?rows) = Some ?h"
    using scanRows_hit [OF header_row_qualifies, of "Suc (Suc 0)" rt]
    by (simp add: normCell_Text header_norms header_indexes)
  then have h: "findHeaderIndexes rt ?rows = Some ?h"
    using scanRows_skip [OF n1, of 0] scanRows_skip [OF n2, of "Suc 0"]
    by (simp add: findHeaderIndexes_def del: scanRows.simps)
  have m1: "monthFromText rt (toLowerCase (trim ''Jan'')) = Some (Finite 0)"
    using monthFromText_cases [OF jan scenario_months(1)]
    by (simp add: scenario_texts)
  have m2: "monthFromText rt (toLowerCase (trim ''February'')) = Some (Finite 1)"
    using monthFromText_cases [OF feb scenario_months(2)]
    by (simp add: scenario_texts)
  have m4: "monthFromText rt (toLowerCase (trim ''3'')) = Some (Finite 2)"
    using monthFromText_cases [OF three scenario_months(3)]
    by (simp add: scenario_texts)
  have r1: "rowRecord rt 0 1 [Text ''Jan'', Num (Finite 100)] =
              Some \<lparr>monthNum = Finite 1, amount = Finite 100\<rparr>"
    by (simp add: rowRecord_def cellAt_def m1)
  have r2: "rowRecord rt 0 1 [Text ''February'', Text ''$50.25''] =
              Some \<lparr>monthNum = Finite 2, amount = Finite 50.25\<rparr>"
    by (simp add: rowRecord_def cellAt_def m2 scenario_amounts)
  have r3: "rowRecord rt 0 1 [Text ''garbage'', Text ''N/A''] = None"
    by (simp add: rowRecord_def cellAt_def scenario_amounts)
  have r4: "rowRecord rt 0 1 [Text ''3'', Num (Finite 75)] =
              Some \<lparr>monthNum = Finite 3, amount = Finite 75\<rparr>"
    by (simp add: rowRecord_def cellAt_def m4)
  show "uploadIngest rt ?rows =
         Inr [\<lparr>monthNum = Finite 1, amount = Finite 100\<rparr>,
              \<lparr>monthNum = Finite 2, amount = Finite 50.25\<rparr>,
              \<lparr>monthNum = Finite 3, amount = Finite 75\<rparr>]"
    unfolding uploadIngest_found [OF h]
    by (simp add: dataRowsAfter_def List.map_filter_simps r1 r2 r3 r4)
  show "upsertAll Map.empty
           [\<lparr>monthNum = Finite 1, amount = Finite 100\<rparr>,
            \<lparr>monthNum = Finite 2, amount = Finite 50.25\<rparr>,
            \<lparr>monthNum = Finite 3, amount = Finite 75\<rparr>] =
         [Finite 1 \<mapsto> Finite 100, Finite 2 \<mapsto> Finite 50.25, Finite 3 \<mapsto> Finite 75]"
    by (simp add: upsertAll_def upsert_def)
qed

theorem end_to_end_scenario_witness:
  "uploadIngest sampleRuntime
     [[Text ''Annual report''], [Absent, Text ''Monthly'', Text ''Amount ($)''],
      [Text ''Month'', Text ''Amount''],
      [Text ''Jan'', Num (Finite 100)], [Text ''February'', Text ''$50.25''],
      [Text ''garbage'', Text ''N/A''], [Text ''3'', Num (Finite 75)]] =
   Inr [\<lparr>monthNum = Finite 1, amount = Finite 100\<rparr>,
        \<lparr>monthNum = Finite 2, amount = Finite 50.25\<rparr>,
        \<lparr>monthNum = Finite 3, amount = Finite 75\<rparr>]"
  using end_to_end_scenario [of sampleRuntime "[Text ''Annual report'']"
          "[Absent, Text ''Monthly'', Text ''Amount ($)'']"]
        sample_noise sample_dates
  by simp

text \<open>
  Claim C9. A cell is a header label only when its normalized text equals one of the
  synonyms: the cells the search selects normalize to a synonym exactly, and "Monthly" and
  "Amount ($)", which begin with a synonym, are no labels, so a row of the two is no header.
\<close>

theorem header_labels_match_exactly:
  "(isMonthLabel (normCell rt c) = (normCell rt c = ''month'' \<or> normCell rt c = ''months'')) \<and>
   (isAmountLabel (normCell rt c) =
      (normCell rt c = ''amount'' \<or> normCell rt c = ''value'' \<or> normCell rt c = ''amt'')) \<and>
   (\<forall>h. findHeaderIndexes rt rows = Some h \<longrightarrow>
      normCell rt (cellAt (rows ! headerRow h) (monthIdx h)) \<in> {''month'', ''months''} \<and>
      normCell rt (cellAt (rows ! headerRow h) (amountIdx h)) \<in> {''amount'', ''value'', ''amt''}) \<and>
   take 5 (normCell rt (Text ''Monthly'')) = ''month'' \<and>
   \<not> isMonthLabel (normCell rt (Text ''Monthly'')) \<and>
   \<not> isAmountLabel (normCell rt (Text ''Monthly'')) \<and>
   take 6 (normCell rt (Text ''Amount ($)'')) = ''amount'' \<and>
   \<not> isMonthLabel (normCell rt (Text ''Amount ($)'')) \<and>
   \<not> isAmountLabel (normCell rt (Text ''Amount ($)'')) \<and>
   findHeaderIndexes rt [[Text ''Monthly'', Text ''Amount ($)'']] = None"
proof (intro conjI allI impI)
  show "isMonthLabel (normCell rt c) = (normCell rt c = ''month'' \<or> normCell rt c = ''months'')"
    by (simp add: isMonthLabel_def)
  show "isAmountLabel (normCell rt c) =
      (normCell rt c = ''amount'' \<or> normCell rt c = ''value'' \<or> normCell rt c = ''amt'')"
    by (simp add: isAmountLabel_def)
  show "take 5 (normCell rt (Text ''Monthly'')) = ''month''"
    by (simp add: normCell_Text near_labels)
  show "take 6 (normCell rt (Text ''Amount ($)'')) = ''amount''"
    by (simp add: normCell_Text near_labels)
  show nm: "\<not> isMonthLabel (normCell rt (Text ''Monthly''))"
    by (simp add: normCell_Text near_labels isMonthLabel_def)
  show "\<not> isAmountLabel (normCell rt (Text ''Monthly''))"
    by (simp add: normCell_Text near_labels isAmountLabel_def)
  show na: "\<not> isMonthLabel (normCell rt (Text ''Amount ($)''))"
    by (simp add: normCell_Text near_labels isMonthLabel_def)
  show "\<not> isAmountLabel (normCell rt (Text ''Amount ($)''))"
    by (simp add: normCell_Text near_labels isAmountLabel_def)
  from nm na have "\<not> rowQualifies rt [Text ''Monthly'', Text ''Amount ($)'']"
    by (simp add: rowQualifies_def)
  then show "findHeaderIndexes rt [[Text ''Monthly'', Text ''Amount ($)'']] = None"
    by (simp add: findHeaderIndexes_None)
next
  fix h assume h: "findHeaderIndexes rt rows = Some h"
  from firstMatch_cellAt [OF findHeaderIndexes_Some(4) [OF h]]
  show "normCell rt (cellAt (rows ! headerRow h) (monthIdx h)) \<in> {''month'', ''months''}"
    by (simp add: isMonthLabel_def)
  from firstMatch_cellAt [OF findHeaderIndexes_Some(5) [OF h]]
  show "normCell rt (cellAt (rows ! headerRow h) (amountIdx h)) \<in> {''amount'', ''value'', ''amt''}"
    by (simp add: isAmountLabel_def)
qed

theorem header_labels_match_exactly_witness:
  "findHeaderIndexes sampleRuntime sampleGrid = Some \<lparr>headerRow = 2, monthIdx = 1, amountIdx = 3\<rparr> \<and>
   normCell sampleRuntime (cellAt (sampleGrid ! 2) 1) \<in> {''month'', ''months''} \<and>
   normCell sampleRuntime (cellAt (sampleGrid ! 2) 3) \<in> {''amount'', ''value'', ''amt''}"
  using header_labels_match_exactly [of sampleRuntime _ sampleGrid] sampleGrid_header
  by auto

subsection \<open>Amount parsing\<close>

lemma takeWhile_dropWhile_stop:
  "ys = [] \<or> \<not> P (hd ys) \<Longrightarrow> takeWhile P ys = [] \<and> dropWhile P ys = ys"
  by (cases ys) auto

lemma takeWhile_dropWhile_split:
  "list_all P xs \<Longrightarrow> ys = [] \<or> \<not> P (hd ys) \<Longrightarrow>
     takeWhile P (xs @ ys) = xs \<and> dropWhile P (xs @ ys) = ys"
proof (induction xs)
  case Nil
  then show ?case using takeWhile_dropWhile_stop [of ys P] by simp
next
  case (Cons x xs)
  then show ?case by simp
qed

lemma not_digit_chars: "\<not> isDigit CHR ''.''" "\<not> isDigit CHR ''-''"
  by (simp_all add: isDigit_def)

lemma digitsVal_Nil: "digitsVal [] = 0"
  by (simp add: digitsVal_def)

lemma parseFloat_unsigned:
  "s = [] \<or> hd s \<noteq> CHR ''-'' \<Longrightarrow>
     parseFloat s =
       (let ip = takeWhile isDigit s;
            r2 = dropWhile isDigit s;
            fp = (if r2 \<noteq> [] \<and> hd r2 = CHR ''.'' then takeWhile isDigit (tl r2) else [])
        in if ip = [] \<and> fp = [] then NaN
           else Finite (real (digitsVal ip) + real (digitsVal fp) / 10 ^ length fp))"
  by (auto simp: parseFloat_def Let_def)

lemma parseFloat_signed:
  "parseFloat (CHR ''-'' # s) =
       (let ip = takeWhile isDigit s;
            r2 = dropWhile isDigit s;
            fp = (if r2 \<noteq> [] \<and> hd r2 = CHR ''.'' then takeWhile isDigit (tl r2) else [])
        in if ip = [] \<and> fp = [] then NaN
           else Finite (- (real (digitsVal ip) + real (digitsVal fp) / 10 ^ length fp)))"
  by (simp add: parseFloat_def Let_def)

lemma point_scan:
  assumes ds: "list_all isDigit ds" and fs: "list_all isDigit fs"
    and rest: "rest = [] \<or> \<not> isDigit (hd rest)"
  shows "(let ip = takeWhile isDigit (ds @ CHR ''.'' # fs @ rest);
              r2 = dropWhile isDigit (ds @ CHR ''.'' # fs @ rest);
              fp = (if r2 \<noteq> [] \<and> hd r2 = CHR ''.'' then takeWhile isDigit (tl r2) else [])
          in f ip fp) = f ds fs"
proof -
  have a: "takeWhile isDigit (ds @ CHR ''.'' # fs @ rest) = ds"
    and b: "dropWhile isDigit (ds @ CHR ''.'' # fs @ rest) = CHR ''.'' # fs @ rest"
    using takeWhile_dropWhile_split [OF ds, of "CHR ''.'' # fs @ rest"]
    by (simp_all add: not_digit_chars)
  have c: "takeWhile isDigit (fs @ rest) = fs"
    using takeWhile_dropWhile_split [OF fs rest] by simp
  show ?thesis
    by (simp only: a b c Let_def list.sel list.simps simp_thms if_True)
qed

lemma integer_scan:
  assumes ds: "list_all isDigit ds" and rest: "rest = [] \<or> hd rest = CHR ''-''"
  shows "(let ip = takeWhile isDigit (ds @ rest);
              r2 = dropWhile isDigit (ds @ rest);
              fp = (if r2 \<noteq> [] \<and> hd r2 = CHR ''.'' then takeWhile isDigit (tl r2) else [])
          in f ip fp) = f ds []"
proof -
  from rest have r: "rest = [] \<or> \<not> isDigit (hd rest)" by (auto simp: not_digit_chars)
  have a: "takeWhile isDigit (ds @ rest) = ds" and b: "dropWhile isDigit (ds @ rest) = rest"
    using takeWhile_dropWhile_split [OF ds r] by simp_all
  from rest have d: "(rest \<noteq> [] \<and> hd rest = CHR ''.'') = False" by auto
  show ?thesis
    by (simp only: a b d Let_def if_False)
qed

lemma none_scan:
  assumes "rest = [] \<or> hd rest = CHR ''-'' \<or>
           (hd rest = CHR ''.'' \<and> (tl rest = [] \<or> \<not> isDigit (hd (tl rest))))"
  shows "(let ip = takeWhile isDigit rest;
              r2 = dropWhile isDigit rest;
              fp = (if r2 \<noteq> [] \<and> hd r2 = CHR ''.'' then takeWhile isDigit (tl r2) else [])
          in f ip fp) = f [] []"
proof -
  from assms have r: "rest = [] \<or> \<not> isDigit (hd rest)" by (auto simp: not_digit_chars)
  have tw: "takeWhile isDigit rest = []" and dw: "dropWhile isDigit rest = rest"
    using takeWhile_dropWhile_stop [of rest isDigit] r by simp_all
  have fp: "(if rest \<noteq> [] \<and> hd rest = CHR ''.'' then takeWhile isDigit (tl rest) else []) = []"
  proof (cases "rest \<noteq> [] \<and> hd rest = CHR ''.''")
    case True
    with assms have "tl rest = [] \<or> \<not> isDigit (hd (tl rest))" by auto
    with takeWhile_dropWhile_stop [of "tl rest" isDigit] True show ?thesis by simp
  next
    case False
    then show ?thesis by auto
  qed
  show ?thesis
    by (simp only: tw dw fp Let_def)
qed

lemma parseFloat_point:
  assumes ds: "list_all isDigit ds" and fs: "list_all isDigit fs"
    and ne: "ds \<noteq> [] \<or> fs \<noteq> []" and rest: "rest = [] \<or> \<not> isDigit (hd rest)"
  shows "parseFloat (ds @ CHR ''.'' # fs @ rest) =
           Finite (real (digitsVal ds) + real (digitsVal fs) / 10 ^ length fs)"
    and "parseFloat (CHR ''-'' # ds @ CHR ''.'' # fs @ rest) =
           Finite (- (real (digitsVal ds) + real (digitsVal fs) / 10 ^ length fs))"
proof -
  from ds have u: "ds @ CHR ''.'' # fs @ rest = [] \<or> hd (ds @ CHR ''.'' # fs @ rest) \<noteq> CHR ''-''"
    by (cases ds) (auto simp: not_digit_chars)
  show "parseFloat (ds @ CHR ''.'' # fs @ rest) =
           Finite (real (digitsVal ds) + real (digitsVal fs) / 10 ^ length fs)"
    unfolding parseFloat_unsigned [OF u] point_scan [OF ds fs rest] using ne by simp
  show "parseFloat (CHR ''-'' # ds @ CHR ''.'' # fs @ rest) =
           Finite (- (real (digitsVal ds) + real (digitsVal fs) / 10 ^ length fs))"
    unfolding parseFloat_signed point_scan [OF ds fs rest] using ne by simp
qed

lemma parseFloat_integer:
  assumes ds: "list_all isDigit ds" and ne: "ds \<noteq> []"
    and rest: "rest = [] \<or> hd rest = CHR ''-''"
  shows "parseFloat (ds @ rest) = Finite (real (digitsVal ds))"
    and "parseFloat (CHR ''-'' # ds @ rest) = Finite (- real (digitsVal ds))"
proof -
  from ds ne have u: "ds @ rest = [] \<or> hd (ds @ rest) \<noteq> CHR ''-''"
    by (cases ds) (auto simp: not_digit_chars)
  show "parseFloat (ds @ rest) = Finite (real (digitsVal ds))"
    unfolding parseFloat_unsigned [OF u] integer_scan [OF ds rest]
    using ne by (simp add: digitsVal_Nil)
  show "parseFloat (CHR ''-'' # ds @ rest) = Finite (- real (digitsVal ds))"
    unfolding parseFloat_signed integer_scan [OF ds rest]
    using ne by (simp add: digitsVal_Nil)
qed

lemma parseFloat_none:
  assumes "rest = [] \<or> hd rest = CHR ''-'' \<or>
           (hd rest = CHR ''.'' \<and> (tl rest = [] \<or> \<not> isDigit (hd (tl rest))))"
  shows "parseFloat (CHR ''-'' # rest) = NaN"
    and "rest = [] \<or> hd rest \<noteq> CHR ''-'' \<Longrightarrow> parseFloat rest = NaN"
proof -
  show "parseFloat (CHR ''-'' # rest) = NaN"
    unfolding parseFloat_signed none_scan [OF assms] by simp
  assume u: "rest = [] \<or> hd rest \<noteq> CHR ''-''"
  show "parseFloat rest = NaN"
    unfolding parseFloat_unsigned [OF u] none_scan [OF assms] by simp
qed

lemma amountFromString_value:
  assumes "stripAmount (trim str) = s" and "\<exists>c \<in> set s. isDigit c" and "parseFloat s = Finite v"
  shows "amountFromString str = Some (Finite v)"
proof -
  from assms(2) have "s \<noteq> [] \<and> s \<noteq> ''-'' \<and> s \<noteq> ''.'' \<and> s \<noteq> ''-.''"
    by (auto simp: not_digit_chars)
  with assms(1,3) show ?thesis by (simp add: amountFromString_def Let_def)
qed

lemma amountFromString_special:
  "stripAmount (trim str) \<in> {[], ''-'', ''.'', ''-.''} \<Longrightarrow> amountFromString str = None"
  by (auto simp: amountFromString_def Let_def)

lemma amountFromString_NaN:
  "parseFloat (stripAmount (trim str)) = NaN \<Longrightarrow> amountFromString str = None"
  by (simp add: amountFromString_def Let_def)

lemma amount_examples:
  "amountFromString ''$1,234.50'' = Some (Finite 1234.50)"
  "amountFromString ''-'' = None"
  "amountFromString ''  42 '' = Some (Finite 42)"
  "amountFromString ''10-20'' = Some (Finite 10)"
  by code_simp+

lemma parseAmount_Text: "parseAmount rt (Text t) = amountFromString t"
  by simp

lemma amount_witness_facts:
  "stripAmount (trim ''$1,234.50'') = ''1234'' @ CHR ''.'' # ''50'' @ []"
  "list_all isDigit ''1234''" "list_all isDigit ''50''"
  "digitsVal ''1234'' = 1234" "digitsVal ''50'' = 50"
  by code_simp+

text \<open>
  Claim C7, as stated: a text is stripped of every character except digits, a single leading
  minus sign, and decimal points, and then parsed. The filter of the code keeps every minus
  sign: "10-20" stays "10-20" and is read as 10, where the filter of the claim gives "1020"
  and 1020.
\<close>

theorem inner_minus_sign_is_kept:
  "stripAmount (trim ''10-20'') = ''10-20'' \<and>
   stripAmount_spec (trim ''10-20'') = ''1020'' \<and>
   parseAmount sampleRuntime (Text ''10-20'') = Some (Finite 10) \<and>
   amountFromString_spec ''10-20'' = Some (Finite 1020)"
  by code_simp

text \<open>
  Claim C7, amended. A numeric cell is returned unchanged. Any other cell that is present is
  turned into text, trimmed and stripped of every character except digits, minus signs and
  decimal points, all of which stay where they are. A text that reduces to the empty
  string, "-", "." or "-." is unresolved. Otherwise the longest leading part that is a
  decimal number (an optional minus, digits, an optional point and digits) is read and what
  follows it is ignored; with no such part the cell is unresolved. So "$1,234.50" gives
  1234.50, "-" is unresolved, "  42 " gives 42, the number 7.5 gives 7.5, and "10-20"
  gives 10.
\<close>

theorem amount_parsing_keeps_every_minus:
  "parseAmount rt (Num n) = Some n \<and>
   parseAmount rt Absent = None \<and>
   parseAmount rt (Text t) = amountFromString t \<and>
   parseAmount rt (DateV d) = amountFromString (dateToString d) \<and>
   stripAmount str = filter (\<lambda>c. isDigit c \<or> c = CHR ''.'' \<or> c = CHR ''-'') str \<and>
   (stripAmount (trim str) \<in> {[], ''-'', ''.'', ''-.''} \<longrightarrow> amountFromString str = None) \<and>
   (\<forall>ds fs rest.
      list_all isDigit ds \<and> list_all isDigit fs \<and> (ds \<noteq> [] \<or> fs \<noteq> []) \<and>
      (rest = [] \<or> \<not> isDigit (hd rest)) \<longrightarrow>
      (stripAmount (trim str) = ds @ CHR ''.'' # fs @ rest \<longrightarrow>
         amountFromString str =
           Some (Finite (real (digitsVal ds) + real (digitsVal fs) / 10 ^ length fs))) \<and>
      (stripAmount (trim str) = CHR ''-'' # ds @ CHR ''.'' # fs @ rest \<longrightarrow>
         amountFromString str =
           Some (Finite (- (real (digitsVal ds) + real (digitsVal fs) / 10 ^ length fs))))) \<and>
   (\<forall>ds rest.
      list_all isDigit ds \<and> ds \<noteq> [] \<and> (rest = [] \<or> hd rest = CHR ''-'') \<longrightarrow>
      (stripAmount (trim str) = ds @ rest \<longrightarrow>
         amountFromString str = Some (Finite (real (digitsVal ds)))) \<and>
      (stripAmount (trim str) = CHR ''-'' # ds @ rest \<longrightarrow>
         amountFromString str = Some (Finite (- real (digitsVal ds))))) \<and>
   (\<forall>rest.
      (rest = [] \<or> hd rest = CHR ''-'' \<or>
       (hd rest = CHR ''.'' \<and> (tl rest = [] \<or> \<not> isDigit (hd (tl rest))))) \<longrightarrow>
      (stripAmount (trim str) = CHR ''-'' # rest \<longrightarrow> amountFromString str = None) \<and>
      (stripAmount (trim str) = rest \<and> (rest = [] \<or> hd rest \<noteq> CHR ''-'') \<longrightarrow>
         amountFromString str = None)) \<and>
   parseAmount rt (Text ''$1,234.50'') = Some (Finite 1234.50) \<and>
   parseAmount rt (Text ''-'') = None \<and>
   parseAmount rt (Text ''  42 '') = Some (Finite 42) \<and>
   parseAmount rt (Num (Finite 7.5)) = Some (Finite 7.5) \<and>
   parseAmount rt (Text ''10-20'') = Some (Finite 10)"
proof -
  have point: "amountFromString str =
           Some (Finite (real (digitsVal ds) + real (digitsVal fs) / 10 ^ length fs))"
    if "list_all isDigit ds" "list_all isDigit fs" "ds \<noteq> [] \<or> fs \<noteq> []"
       "rest = [] \<or> \<not> isDigit (hd rest)" "stripAmount (trim str) = ds @ CHR ''.'' # fs @ rest"
    for ds fs rest
  proof (rule amountFromString_value [OF that(5)])
    from that(1,2,3) show "\<exists>c \<in> set (ds @ CHR ''.'' # fs @ rest). isDigit c"
      by (cases ds; cases fs) auto
    from parseFloat_point(1) [OF that(1,2,3,4)]
    show "parseFloat (ds @ CHR ''.'' # fs @ rest) =
            Finite (real (digitsVal ds) + real (digitsVal fs) / 10 ^ length fs)" .
  qed
  have npoint: "amountFromString str =
           Some (Finite (- (real (digitsVal ds) + real (digitsVal fs) / 10 ^ length fs)))"
    if "list_all isDigit ds" "list_all isDigit fs" "ds \<noteq> [] \<or> fs \<noteq> []"
       "rest = [] \<or> \<not> isDigit (hd rest)"
       "stripAmount (trim str) = CHR ''-'' # ds @ CHR ''.'' # fs @ rest"
    for ds fs rest
  proof (rule amountFromString_value [OF that(5)])
    from that(1,2,3) show "\<exists>c \<in> set (CHR ''-'' # ds @ CHR ''.'' # fs @ rest). isDigit c"
      by (cases ds; cases fs) auto
    from parseFloat_point(2) [OF that(1,2,3,4)]
    show "parseFloat (CHR ''-'' # ds @ CHR ''.'' # fs @ rest) =
            Finite (- (real (digitsVal ds) + real (digitsVal fs) / 10 ^ length fs))" .
  qed
  have int: "amountFromString str = Some (Finite (real (digitsVal ds)))"
    if "list_all isDigit ds" "ds \<noteq> []" "rest = [] \<or> hd rest = CHR ''-''"
       "stripAmount (trim str) = ds @ rest"
    for ds rest
  proof (rule amountFromString_value [OF that(4)])
    from that(1,2) show "\<exists>c \<in> set (ds @ rest). isDigit c" by (cases ds) auto
    from parseFloat_integer(1) [OF that(1,2,3)]
    show "parseFloat (ds @ rest) = Finite (real (digitsVal ds))" .
  qed
  have nint: "amountFromString str = Some (Finite (- real (digitsVal ds)))"
    if "list_all isDigit ds" "ds \<noteq> []" "rest = [] \<or> hd rest = CHR ''-''"
       "stripAmount (trim str) = CHR ''-'' # ds @ rest"
    for ds rest
  proof (rule amountFromString_value [OF that(4)])
    from that(1,2) show "\<exists>c \<in> set (CHR ''-'' # ds @ rest). isDigit c" by (cases ds) auto
    from parseFloat_integer(2) [OF that(1,2,3)]
    show "parseFloat (CHR ''-'' # ds @ rest) = Finite (- real (digitsVal ds))" .
  qed
  have none1: "amountFromString str = None"
    if "rest = [] \<or> hd rest = CHR ''-'' \<or>
       (hd rest = CHR ''.'' \<and> (tl rest = [] \<or> \<not> isDigit (hd (tl rest))))"
       "stripAmount (trim str) = CHR ''-'' # rest"
    for rest
    using parseFloat_none(1) [OF that(1)] that(2) by (simp add: amountFromString_NaN)
  have none2: "amountFromString str = None"
    if "rest = [] \<or> hd rest = CHR ''-'' \<or>
       (hd rest = CHR ''.'' \<and> (tl rest = [] \<or> \<not> isDigit (hd (tl rest))))"
       "stripAmount (trim str) = rest" "rest = [] \<or> hd rest \<noteq> CHR ''-''"
    for rest
    using parseFloat_none(2) [OF that(1) that(3)] that(2) by (simp add: amountFromString_NaN)
  have A: "\<forall>ds fs rest.
      list_all isDigit ds \<and> list_all isDigit fs \<and> (ds \<noteq> [] \<or> fs \<noteq> []) \<and>
      (rest = [] \<or> \<not> isDigit (hd rest)) \<longrightarrow>
      (stripAmount (trim str) = ds @ CHR ''.'' # fs @ rest \<longrightarrow>
         amountFromString str =
           Some (Finite (real (digitsVal ds) + real (digitsVal fs) / 10 ^ length fs))) \<and>
      (stripAmount (trim str) = CHR ''-'' # ds @ CHR ''.'' # fs @ rest \<longrightarrow>
         amountFromString str =
           Some (Finite (- (real (digitsVal ds) + real (digitsVal fs) / 10 ^ length fs))))"
    using point npoint by blast
  have B: "\<forall>ds rest.
      list_all isDigit ds \<and> ds \<noteq> [] \<and> (rest = [] \<or> hd rest = CHR ''-'') \<longrightarrow>
      (stripAmount (trim str) = ds @ rest \<longrightarrow>
         amountFromString str = Some (Finite (real (digitsVal ds)))) \<and>
      (stripAmount (trim str) = CHR ''-'' # ds @ rest \<longrightarrow>
         amountFromString str = Some (Finite (- real (digitsVal ds))))"
    using int nint by blast
  have C: "\<forall>rest.
      (rest = [] \<or> hd rest = CHR ''-'' \<or>
       (hd rest = CHR ''.'' \<and> (tl rest = [] \<or> \<not> isDigit (hd (tl rest))))) \<longrightarrow>
      (stripAmount (trim str) = CHR ''-'' # rest \<longrightarrow> amountFromString str = None) \<and>
      (stripAmount (trim str) = rest \<and> (rest = [] \<or> hd rest \<noteq> CHR ''-'') \<longrightarrow>
         amountFromString str = None)"
    using none1 none2 by blast
  show ?thesis
    by (intro conjI A B C)
       (simp_all add: stripAmount_def amountFromString_special amount_examples)
qed

theorem amount_parsing_keeps_every_minus_witness:
  "stripAmount (trim ''$1,234.50'') = ''1234.50'' \<and>
   amountFromString ''$1,234.50'' = Some (Finite (1234 + 50 / 10 ^ 2))"
proof -
  from amount_parsing_keeps_every_minus [of sampleRuntime NaN "[]" InvalidDate "''$1,234.50''"]
  have "list_all isDigit ''1234'' \<and> list_all isDigit ''50'' \<and> (''1234'' \<noteq> [] \<or> ''50'' \<noteq> []) \<and>
      ([] = [] \<or> \<not> isDigit (hd [])) \<longrightarrow>
      (stripAmount (trim ''$1,234.50'') = ''1234'' @ CHR ''.'' # ''50'' @ [] \<longrightarrow>
         amountFromString ''$1,234.50'' =
           Some (Finite (real (digitsVal ''1234'') + real (digitsVal ''50'') / 10 ^ length ''50'')))"
    by blast
  with amount_witness_facts show ?thesis by simp
qed

subsection \<open>Month resolution\<close>

lemma stripDotsCommas_idem: "stripDotsCommas (stripDotsCommas s) = stripDotsCommas s"
  by (simp add: stripDotsCommas_def)

lemma monthFromCleaned_cleaned: "monthFromCleaned (stripDotsCommas s) = monthFromCleaned s"
  by (simp add: monthFromCleaned_def stripDotsCommas_idem)

lemma full_names_resolve:
  "list_all (\<lambda>k. monthFromCleaned (toLowerCase (MONTHS ! k)) = Some (Finite (real k))) [0..<12]"
  by code_simp

lemma abbr_resolve:
  "list_all (\<lambda>(a, k). monthFromCleaned a = Some (Finite (real k))) abbr"
  by code_simp

lemma names_start_with_letters:
  "list_all (\<lambda>a. a \<noteq> [] \<and> \<not> isDigit (hd a)) (map toLowerCase MONTHS @ map fst abbr)"
  by code_simp

lemma digits_are_no_name:
  assumes "isDigits12 c"
  shows "c \<notin> set (map toLowerCase MONTHS)" and "map_of abbr c = None"
proof -
  from assms have c: "c \<noteq> []" "isDigit (hd c)"
    by (cases c; auto simp: isDigits12_def)+
  from names_start_with_letters have n: "\<forall>a \<in> set (map toLowerCase MONTHS) \<union> set (map fst abbr). \<not> isDigit (hd a)"
    by (simp add: list_all_iff)
  from n c show "c \<notin> set (map toLowerCase MONTHS)" by blast
  from n c have "c \<notin> fst ` set abbr" by auto
  then show "map_of abbr c = None" by (simp add: map_of_eq_None_iff)
qed

lemma monthFromCleaned_digits:
  assumes "isDigits12 (stripDotsCommas s)"
  shows "monthFromCleaned s =
     (if 1 \<le> digitsVal (stripDotsCommas s) \<and> digitsVal (stripDotsCommas s) \<le> 12
      then Some (Finite (real (digitsVal (stripDotsCommas s)) - 1)) else None)"
  using assms digits_are_no_name [OF assms]
  by (simp add: monthFromCleaned_def Let_def)

lemma monthFromCleaned_unknown:
  assumes "\<not> (isDigits12 (stripDotsCommas s) \<and> 1 \<le> digitsVal (stripDotsCommas s) \<and>
              digitsVal (stripDotsCommas s) \<le> 12)"
    and "stripDotsCommas s \<notin> set (map toLowerCase MONTHS)"
    and "stripDotsCommas s \<notin> fst ` set abbr"
  shows "monthFromCleaned s = None"
proof -
  from assms(3) have "map_of abbr (stripDotsCommas s) = None"
    by (simp add: map_of_eq_None_iff)
  with assms(1,2) show ?thesis by (auto simp: monthFromCleaned_def Let_def)
qed

lemma monthFromText_no_date: "dateMonth rt s = None \<Longrightarrow> monthFromText rt s = monthFromCleaned s"
  by (simp add: monthFromText_def)

lemma monthFromText_date: "dateMonth rt s = Some m \<Longrightarrow> monthFromText rt s = Some (Finite (real m))"
  by (simp add: monthFromText_def)

lemma example_texts:
  "toLowerCase (trim ''January'') = ''january''"
  "toLowerCase (trim ''jan'') = ''jan''"
  "toLowerCase (trim ''Sept'') = ''sept''"
  "toLowerCase (trim ''13'') = ''13''"
  "toLowerCase (trim ''0'') = ''0''"
  by code_simp+

lemma example_months:
  "monthFromCleaned ''january'' = Some (Finite (real 0))"
  "monthFromCleaned ''sept'' = Some (Finite (real 8))"
  "monthFromCleaned ''13'' = None"
  by code_simp+

lemma sample_example_dates:
  "dateMonth sampleRuntime ''january'' = None"
  "dateMonth sampleRuntime ''jan'' = None"
  "dateMonth sampleRuntime ''sept'' = None"
  "dateMonth sampleRuntime ''13'' = None"
  "dateMonth sampleRuntime ''0'' = Some 0"
  by code_simp+

text \<open>
  Claim C2, as stated: after the date-string parse, a string of one or two digits is handled
  by the numeric logic of rule 2, which maps 1 to 12 to the value minus one and otherwise 0
  to 11 to the value itself. The digit rule of the code has the first range only. The text
  "0.0" is no date for the parser of the sample runtime and reduces to the digits "00"; the
  numeric logic gives 0 for the value 0, and the code leaves the cell unresolved.
\<close>

theorem zero_digit_string_unresolved:
  "dateMonth sampleRuntime (toLowerCase (trim ''0.0'')) = None \<and>
   stripDotsCommas (toLowerCase (trim ''0.0'')) = ''00'' \<and>
   isDigits12 ''00'' \<and>
   numericMonth (Finite (real (digitsVal ''00''))) = Some (Finite 0) \<and>
   monthStringToIndex sampleRuntime (Text ''0.0'') = None"
  by code_simp

text \<open>
  Claim C2, amended. The rules apply in the order date value, numeric range, date-string
  parse, digit string, month names and abbreviations, where the digit rule resolves the
  values 1 to 12 only (to the value minus one): a string of one or two digits with another
  value that is no date is unresolved. With a date parser that rejects "13", reads "0" as a
  date in January, and rejects "january", "jan" and "sept" or reads them as dates of that
  month, the examples hold: "January" and "jan" give 0, "Sept" gives 8, "13" is unresolved,
  "0" gives 0 (by the date-string parse), and a date value in July gives 6.
\<close>

theorem month_resolution_order:
  assumes january: "dateMonth rt ''january'' = None \<or> dateMonth rt ''january'' = Some 0"
    and jan: "dateMonth rt ''jan'' = None \<or> dateMonth rt ''jan'' = Some 0"
    and sept: "dateMonth rt ''sept'' = None \<or> dateMonth rt ''sept'' = Some 8"
    and thirteen: "dateMonth rt ''13'' = None"
    and zero: "dateMonth rt ''0'' = Some 0"
  shows
   "monthStringToIndex rt (Text ''January'') = Some (Finite 0) \<and>
    monthStringToIndex rt (Text ''jan'') = Some (Finite 0) \<and>
    monthStringToIndex rt (Text ''Sept'') = Some (Finite 8) \<and>
    monthStringToIndex rt (Text ''13'') = None \<and>
    monthStringToIndex rt (Text ''0'') = Some (Finite 0) \<and>
    monthStringToIndex rt (DateV (ValidDate 6 str)) = Some (Finite 6) \<and>
    (\<forall>m d. monthStringToIndex rt (DateV (ValidDate m d)) = Some (Finite (real m))) \<and>
    (\<forall>n i. numericMonth n = Some i \<longrightarrow> monthStringToIndex rt (Num n) = Some i) \<and>
    (\<forall>t. monthStringToIndex rt (Text t) = monthFromText rt (toLowerCase (trim t))) \<and>
    (\<forall>s m. dateMonth rt s = Some m \<longrightarrow> monthFromText rt s = Some (Finite (real m))) \<and>
    (\<forall>s. dateMonth rt s = None \<and> isDigits12 (stripDotsCommas s) \<longrightarrow>
       monthFromText rt s =
         (if 1 \<le> digitsVal (stripDotsCommas s) \<and> digitsVal (stripDotsCommas s) \<le> 12
          then Some (Finite (real (digitsVal (stripDotsCommas s)) - 1)) else None)) \<and>
    (\<forall>s k. dateMonth rt s = None \<and> k < 12 \<and> stripDotsCommas s = toLowerCase (MONTHS ! k) \<longrightarrow>
       monthFromText rt s = Some (Finite (real k))) \<and>
    (\<forall>s a k. dateMonth rt s = None \<and> (a, k) \<in> set abbr \<and> stripDotsCommas s = a \<longrightarrow>
       monthFromText rt s = Some (Finite (real k))) \<and>
    (\<forall>s. dateMonth rt s = None \<and> \<not> isDigits12 (stripDotsCommas s) \<and>
         stripDotsCommas s \<notin> set (map toLowerCase MONTHS) \<and>
         stripDotsCommas s \<notin> fst ` set abbr \<longrightarrow>
       monthFromText rt s = None)"
proof -
  have e1: "monthStringToIndex rt (Text ''January'') = Some (Finite 0)"
    using monthFromText_cases [OF january example_months(1)] by (simp add: example_texts)
  have e2: "monthStringToIndex rt (Text ''jan'') = Some (Finite 0)"
    using monthFromText_cases [OF jan scenario_months(1)] by (simp add: example_texts)
  have e3: "monthStringToIndex rt (Text ''Sept'') = Some (Finite 8)"
    using monthFromText_cases [OF sept example_months(2)] by (simp add: example_texts)
  have e4: "monthStringToIndex rt (Text ''13'') = None"
    using monthFromText_no_date [OF thirteen] by (simp add: example_texts example_months)
  have e5: "monthStringToIndex rt (Text ''0'') = Some (Finite 0)"
    using monthFromText_date [OF zero] by (simp add: example_texts)
  have num: "\<forall>n i. numericMonth n = Some i \<longrightarrow> monthStringToIndex rt (Num n) = Some i"
    by simp
  have date: "\<forall>s m. dateMonth rt s = Some m \<longrightarrow> monthFromText rt s = Some (Finite (real m))"
    by (simp add: monthFromText_date)
  have digits: "\<forall>s. dateMonth rt s = None \<and> isDigits12 (stripDotsCommas s) \<longrightarrow>
       monthFromText rt s =
         (if 1 \<le> digitsVal (stripDotsCommas s) \<and> digitsVal (stripDotsCommas s) \<le> 12
          then Some (Finite (real (digitsVal (stripDotsCommas s)) - 1)) else None)"
    using monthFromCleaned_digits by (simp add: monthFromText_no_date)
  have full: "\<forall>s k. dateMonth rt s = None \<and> k < 12 \<and> stripDotsCommas s = toLowerCase (MONTHS ! k) \<longrightarrow>
       monthFromText rt s = Some (Finite (real k))"
  proof (intro allI impI)
    fix s k
    assume a: "dateMonth rt s = None \<and> k < 12 \<and> stripDotsCommas s = toLowerCase (MONTHS ! k)"
    from full_names_resolve a
    have "monthFromCleaned (toLowerCase (MONTHS ! k)) = Some (Finite (real k))"
      by (simp add: list_all_iff)
    with a monthFromCleaned_cleaned [of s] show "monthFromText rt s = Some (Finite (real k))"
      by (simp add: monthFromText_no_date)
  qed
  have ab: "\<forall>s a k. dateMonth rt s = None \<and> (a, k) \<in> set abbr \<and> stripDotsCommas s = a \<longrightarrow>
       monthFromText rt s = Some (Finite (real k))"
  proof (intro allI impI)
    fix s a k
    assume a: "dateMonth rt s = None \<and> (a, k) \<in> set abbr \<and> stripDotsCommas s = a"
    from abbr_resolve a have "monthFromCleaned a = Some (Finite (real k))"
      by (auto simp: list_all_iff)
    with a monthFromCleaned_cleaned [of s] show "monthFromText rt s = Some (Finite (real k))"
      by (simp add: monthFromText_no_date)
  qed
  have none: "\<forall>s. dateMonth rt s = None \<and> \<not> isDigits12 (stripDotsCommas s) \<and>
         stripDotsCommas s \<notin> set (map toLowerCase MONTHS) \<and>
         stripDotsCommas s \<notin> fst ` set abbr \<longrightarrow>
       monthFromText rt s = None"
    using monthFromCleaned_unknown by (simp add: monthFromText_no_date)
  show ?thesis
    by (intro conjI e1 e2 e3 e4 e5 num date digits full ab none) simp_all
qed

theorem month_resolution_order_witness:
  "monthStringToIndex sampleRuntime (Text ''January'') = Some (Finite 0) \<and>
   monthStringToIndex sampleRuntime (Text ''jan'') = Some (Finite 0) \<and>
   monthStringToIndex sampleRuntime (Text ''Sept'') = Some (Finite 8) \<and>
   monthStringToIndex sampleRuntime (Text ''13'') = None \<and>
   monthStringToIndex sampleRuntime (Text ''0'') = Some (Finite 0) \<and>
   monthStringToIndex sampleRuntime (DateV (ValidDate 6 ''Tue Jul 04 2023'')) = Some (Finite 6)"
proof -
  have "dateMonth sampleRuntime ''january'' = None \<or> dateMonth sampleRuntime ''january'' = Some 0"
    and "dateMonth sampleRuntime ''jan'' = None \<or> dateMonth sampleRuntime ''jan'' = Some 0"
    and "dateMonth sampleRuntime ''sept'' = None \<or> dateMonth sampleRuntime ''sept'' = Some 8"
    by (simp_all add: sample_example_dates)
  from month_resolution_order [OF this sample_example_dates(4,5), of "''Tue Jul 04 2023''"]
  show ?thesis by blast
qed

end
